theory Spec2Isabelle
  imports Complex_Main "HOL-Library.Sublist"
begin

section \<open>The order notification bot of dex-bot\<close>

text \<open>
  The bot subscribes to order placements and, for each order, computes a price,
  describes the trade window, formats the amounts and sends one markdown message
  to a Telegram channel. The callback \<open>onNewOrder\<close> is embedded below, statement
  by statement.

  Conventions of the embedding:
  \<^item> a bignumber.js value is a \<open>bignumber\<close>: a finite decimal (held as a rational),
    \<open>Infinity\<close>, \<open>-Infinity\<close> or \<open>NaN\<close>; the library's defaults are assumed
    (\<open>DECIMAL_PLACES = 20\<close>, \<open>ROUND_HALF_UP\<close>, exponential notation from exponent
    \<open>-7\<close> down and \<open>21\<close> up);
  \<^item> a JavaScript number is a double: \<open>1 + 2 / FEE_DENOMINATOR\<close> is computed with
    the rounding of binary64, and a bignumber built from a number is the decimal
    that the number prints as; \<open>10 ** d\<close> is the power itself up to \<open>d = 22\<close>, where
    doubles hold it exactly, and beyond that what the engine returns;
  \<^item> \<open>new BN(text)\<close> of bn.js reads an optionally signed run of decimal digits;
    what it does with any other text depends on the version of bn.js;
  \<^item> a point in time is its number of milliseconds since the epoch, and the
    clock is read once per event (\<open>now\<close>); moment renders a time relative to it;
  \<^item> what the process reads from its surroundings (environment variables, the
    clock, the constant imported from \<open>const\<close>, the renderings of moment, the
    engine's \<open>10 ** d\<close> beyond 22 and the bn.js constructor on other text) is a
    field of the record \<open>env\<close>.
\<close>

subsection \<open>Tokens and orders\<close>

record token =
  address :: string
  symbol :: "string option"
  name :: "string option"
  decimals :: nat

record order =
  owner :: string
  buyToken :: token
  sellToken :: token
  validFrom :: int
  validUntil :: int
  priceNumerator :: int
  priceDenominator :: int

text \<open>
  \<open>InvalidOrderData\<close> is the failure of the formatters; \<open>InvalidCharacter\<close> is the
  assertion of bn.js 5 on a text that is not a numeral.
\<close>

datatype error = InvalidOrderData | InvalidCharacter

subsection \<open>bignumber.js\<close>

datatype bignumber = Fin rat | PInf | NInf | NaN

definition DECIMAL_PLACES :: nat where
  "DECIMAL_PLACES = 20"

text \<open>Rounding to \<open>dp\<close> decimal places, a tie going away from zero.\<close>

definition round_half_up :: "nat \<Rightarrow> rat \<Rightarrow> rat" where
  "round_half_up dp q = sgn q * of_int \<lfloor>\<bar>q\<bar> * 10 ^ dp + 1 / 2\<rfloor> / 10 ^ dp"

fun negative :: "bignumber \<Rightarrow> bool" where
  "negative (Fin a) = (a < 0)"
| "negative NInf = True"
| "negative _ = False"

text \<open>
  \<open>x.multipliedBy(y)\<close>: exact on finite values; \<open>NaN\<close> when an operand is \<open>NaN\<close> or
  when zero meets an infinity; otherwise the infinity of the product's sign.
\<close>

fun multipliedBy :: "bignumber \<Rightarrow> bignumber \<Rightarrow> bignumber" where
  "multipliedBy (Fin a) (Fin b) = Fin (a * b)"
| "multipliedBy x y =
     (if x = NaN \<or> y = NaN \<or> x = Fin 0 \<or> y = Fin 0 then NaN
      else if negative x \<noteq> negative y then NInf else PInf)"

text \<open>
  \<open>x.dividedBy(y)\<close>: the quotient rounded to \<open>DECIMAL_PLACES\<close>. Division by zero
  does not throw: it gives \<open>NaN\<close> for \<open>0 / 0\<close> and an infinity otherwise. The zero
  divisors of this program are never negative zeros, so the sign is the dividend's.
\<close>

fun dividedBy :: "bignumber \<Rightarrow> bignumber \<Rightarrow> bignumber" where
  "dividedBy NaN _ = NaN"
| "dividedBy _ NaN = NaN"
| "dividedBy (Fin a) (Fin b) =
     (if b = 0 then (if a = 0 then NaN else if a < 0 then NInf else PInf)
      else Fin (round_half_up DECIMAL_PLACES (a / b)))"
| "dividedBy (Fin a) _ = Fin 0"
| "dividedBy x (Fin b) = (if negative x \<noteq> (b < 0) then NInf else PInf)"
| "dividedBy _ _ = NaN"

text \<open>\<open>x.isGreaterThan(y)\<close>: false whenever an operand is \<open>NaN\<close>.\<close>

fun isGreaterThan :: "bignumber \<Rightarrow> bignumber \<Rightarrow> bool" where
  "isGreaterThan NaN _ = False"
| "isGreaterThan _ NaN = False"
| "isGreaterThan (Fin a) (Fin b) = (a > b)"
| "isGreaterThan PInf y = (y \<noteq> PInf)"
| "isGreaterThan x NInf = (x \<noteq> NInf)"
| "isGreaterThan _ _ = False"

subsection \<open>The surroundings\<close>

record env =
  WEB_BASE_URL :: string
  channelId :: string
  FEE_DENOMINATOR :: nat
  DISPLAY_DECIMALS :: nat
  now :: int
  calendar :: "int \<Rightarrow> int \<Rightarrow> string"
  fromNow :: "int \<Rightarrow> int \<Rightarrow> string"
  POW10_BEYOND :: "nat \<Rightarrow> bignumber"
  BN_OTHER :: "string \<Rightarrow> error + int"

subsection \<open>Printing a bignumber\<close>

definition digitChar :: "nat \<Rightarrow> char" where
  "digitChar d = ''0123456789'' ! d"

fun digits :: "nat \<Rightarrow> string" where
  "digits n = (if n < 10 then [digitChar n] else digits (n div 10) @ [digitChar (n mod 10)])"

declare digits.simps [simp del]

definition showInt :: "int \<Rightarrow> string" where
  "showInt i = (if i < 0 then ''-'' @ digits (nat (- i)) else digits (nat i))"

text \<open>
  The number of decimal places of a finite decimal: the least \<open>k\<close> that makes
  \<open>q * 10 ^ k\<close> an integer. The library keeps at most \<open>MAX_DP\<close> decimal places.
\<close>

definition MAX_DP :: nat where
  "MAX_DP = 1000000000"

function decimalPlacesFrom :: "rat \<Rightarrow> nat \<Rightarrow> nat" where
  "decimalPlacesFrom q k =
     (if of_int \<lfloor>q * 10 ^ k\<rfloor> = q * 10 ^ k \<or> MAX_DP \<le> k then k
      else decimalPlacesFrom q (Suc k))"
  by pat_completeness auto
termination
  by (relation "measure (\<lambda>(q, k). MAX_DP - k)") auto

declare decimalPlacesFrom.simps [simp del]

definition stripTrailingZeros :: "string \<Rightarrow> string" where
  "stripTrailingZeros ds = rev (dropWhile (\<lambda>c. c = CHR ''0'') (rev ds))"

text \<open>
  \<open>toFixedPoint(str, e, '0')\<close> and \<open>toExponential(str, e)\<close> of the library, on the
  coefficient \<open>str\<close> (its digits without trailing zeros) and the exponent \<open>e\<close> of the
  leading digit.
\<close>

definition toFixedPoint :: "string \<Rightarrow> int \<Rightarrow> string" where
  "toFixedPoint str e =
     (if e < 0 then ''0.'' @ replicate (nat (- e - 1)) (CHR ''0'') @ str
      else let len = length str; e1 = nat e + 1 in
        if e1 > len then str @ replicate (e1 - len) (CHR ''0'')
        else if e1 < len then take e1 str @ ''.'' @ drop e1 str
        else str)"

definition toExponential :: "string \<Rightarrow> int \<Rightarrow> string" where
  "toExponential str e =
     (if length str > 1 then hd str # ''.'' @ tl str else str)
     @ (if e < 0 then ''e'' else ''e+'') @ showInt e"

definition TO_EXP_NEG :: int where
  "TO_EXP_NEG = - 7"

definition TO_EXP_POS :: int where
  "TO_EXP_POS = 21"

definition toStringFin :: "rat \<Rightarrow> string" where
  "toStringFin q =
     (let k = decimalPlacesFrom \<bar>q\<bar> 0;
          ds = digits (nat \<lfloor>\<bar>q\<bar> * 10 ^ k\<rfloor>);
          e = int (length ds) - 1 - int k;
          str = (if e \<le> TO_EXP_NEG \<or> e \<ge> TO_EXP_POS
                 then toExponential (stripTrailingZeros ds) e
                 else toFixedPoint (stripTrailingZeros ds) e)
      in if q < 0 then ''-'' @ str else str)"

fun toString :: "bignumber \<Rightarrow> string" where
  "toString NaN = ''NaN''"
| "toString PInf = ''Infinity''"
| "toString NInf = ''-Infinity''"
| "toString (Fin q) = (if q = 0 then ''0'' else toStringFin q)"

subsection \<open>JavaScript numbers\<close>

text \<open>
  The binary exponent of a positive number: the \<open>e\<close> with \<open>2 ^ e \<le> x < 2 ^ (e + 1)\<close>,
  found by halving a number from 1 up and doubling one below 1.
\<close>

function halvings :: "rat \<Rightarrow> nat" where
  "halvings x = (if x < 2 then 0 else Suc (halvings (x / 2)))"
  by pat_completeness auto
termination
  by (relation "measure (\<lambda>x. nat \<lfloor>x\<rfloor>)") (auto, linarith)

declare halvings.simps [simp del]

function doublings :: "rat \<Rightarrow> nat" where
  "doublings x = (if x \<le> 0 \<or> 1 \<le> x then 0 else Suc (doublings (2 * x)))"
  by pat_completeness auto
termination
proof (relation "measure (\<lambda>x. nat \<lceil>1 / x\<rceil>)", goal_cases)
  case 1
  show ?case by simp
next
  case (2 x)
  then have x: "0 < x" "x < 1" by auto
  define a where "a = 1 / x"
  have a: "1 < a" using x by (simp add: a_def)
  have h: "1 / (2 * x) = a / 2" by (simp add: a_def)
  have "\<lceil>a / 2\<rceil> < \<lceil>a\<rceil>"
  proof (cases "a \<le> 2")
    case True
    then have "\<lceil>a / 2\<rceil> \<le> 1" by (simp add: ceiling_le_iff)
    moreover have "1 < \<lceil>a\<rceil>" using a by (simp add: less_ceiling_iff)
    ultimately show ?thesis by linarith
  next
    case False
    have "of_int \<lceil>a / 2\<rceil> < a / 2 + 1" by linarith
    also have "\<dots> < a" using False by simp
    also have "a \<le> of_int \<lceil>a\<rceil>" by linarith
    finally show ?thesis by simp
  qed
  moreover have "0 < \<lceil>a\<rceil>" using a by (simp add: less_ceiling_iff)
  ultimately show ?case by (simp add: h a_def)
qed

declare doublings.simps [simp del]

definition binaryExponent :: "rat \<Rightarrow> int" where
  "binaryExponent x = (if 1 \<le> x then int (halvings x) else - int (doublings x))"

text \<open>
  The double nearest to a positive number, a tie going to the even significand of
  53 bits. Numbers beyond the range of the exponent do not occur below but as
  intermediate values whose rounding does not change the result.
\<close>

definition roundHalfEven :: "rat \<Rightarrow> int" where
  "roundHalfEven q =
     (let f = \<lfloor>q\<rfloor>; r = q - of_int f
      in if r < 1 / 2 then f else if 1 / 2 < r then f + 1 else if even f then f else f + 1)"

definition roundDouble :: "rat \<Rightarrow> rat" where
  "roundDouble x =
     (let u = 2 powi (binaryExponent x - 52) in of_int (roundHalfEven (x / u)) * u)"

text \<open>
  \<open>String(x)\<close> for a double \<open>x\<close> from 1 up to 10, as a number: the decimal with the
  fewest digits that rounds to \<open>x\<close>, the closest one to \<open>x\<close> if there are two, and
  with 17 digits the nearest decimal. The search tries \<open>j\<close> fractional digits and
  has \<open>n\<close> more lengths to go. This is the value of \<open>new BigNumber(x)\<close>.
\<close>

fun shortest :: "nat \<Rightarrow> nat \<Rightarrow> rat \<Rightarrow> rat" where
  "shortest 0 j x = of_int (roundHalfEven (x * 10 ^ j)) / 10 ^ j"
| "shortest (Suc n) j x =
     (let lo = of_int \<lfloor>x * 10 ^ j\<rfloor> / 10 ^ j;
          hi = of_int \<lceil>x * 10 ^ j\<rceil> / 10 ^ j
      in if roundDouble lo = x \<and> roundDouble hi = x then
           (if x - lo < hi - x then lo else if hi - x < x - lo then hi
            else if even \<lfloor>x * 10 ^ j\<rfloor> then lo else hi)
         else if roundDouble lo = x then lo
         else if roundDouble hi = x then hi
         else shortest n (Suc j) x)"

definition numberValue :: "rat \<Rightarrow> rat" where
  "numberValue x = shortest 16 0 x"

subsection \<open>bn.js\<close>

text \<open>A run of decimal digits is read as the natural number it denotes.\<close>

definition digitValue :: "char \<Rightarrow> nat option" where
  "digitValue c =
     map_of [(CHR ''0'', 0), (CHR ''1'', 1), (CHR ''2'', 2), (CHR ''3'', 3), (CHR ''4'', 4),
             (CHR ''5'', 5), (CHR ''6'', 6), (CHR ''7'', 7), (CHR ''8'', 8), (CHR ''9'', 9)] c"

fun parseDigits :: "nat \<Rightarrow> string \<Rightarrow> nat option" where
  "parseDigits acc [] = Some acc"
| "parseDigits acc (c # cs) =
     (case digitValue c of None \<Rightarrow> None | Some v \<Rightarrow> parseDigits (10 * acc + v) cs)"

definition parseNat :: "string \<Rightarrow> nat option" where
  "parseNat s = (if s = [] then None else parseDigits 0 s)"

text \<open>
  \<open>new BN(s)\<close> in base 10: a run of digits, with a minus sign in front or not, is
  the integer it denotes. On a text with any other character (a point, the \<open>e+\<close>
  of an exponent, \<open>Infinity\<close>, \<open>NaN\<close>) bn.js 5 fails its assertion and bn.js 4 takes
  the characters for digits and returns an integer of no meaning. The sources do
  not say which version runs, so that case is the field \<open>BN_OTHER\<close>.
\<close>

definition BN :: "env \<Rightarrow> string \<Rightarrow> error + int" where
  "BN ev s =
     (case s of
        [] \<Rightarrow> BN_OTHER ev s
      | c # cs \<Rightarrow>
          if c = CHR ''-'' then
            (case parseNat cs of Some n \<Rightarrow> Inr (- int n) | None \<Rightarrow> BN_OTHER ev s)
          else
            (case parseNat s of Some n \<Rightarrow> Inr (int n) | None \<Rightarrow> BN_OTHER ev s))"

subsection \<open>The price\<close>

text \<open>
  Lines 131 and 134: \<open>10 ** d\<close>, a JavaScript number that \<open>multipliedBy\<close> turns
  into a bignumber. Every power of ten up to \<open>10 ^ 22\<close> is a double, and prints as
  itself; a higher power is not, and the engine's result there is \<open>POW10_BEYOND\<close>.
\<close>

definition precisionFactor :: "env \<Rightarrow> nat \<Rightarrow> bignumber" where
  "precisionFactor ev d = (if d \<le> 22 then Fin (10 ^ d) else POW10_BEYOND ev d)"

text \<open>Lines 129 to 136 of the bot: the price of one sell token in buy tokens.\<close>

definition price :: "env \<Rightarrow> order \<Rightarrow> bignumber" where
  "price ev ord =
     (if decimals (buyToken ord) \<ge> decimals (sellToken ord) then
        dividedBy (Fin (of_int (priceNumerator ord)))
          (multipliedBy (Fin (of_int (priceDenominator ord)))
             (precisionFactor ev (decimals (buyToken ord) - decimals (sellToken ord))))
      else
        dividedBy
          (multipliedBy (Fin (of_int (priceNumerator ord)))
             (precisionFactor ev (decimals (sellToken ord) - decimals (buyToken ord))))
          (Fin (of_int (priceDenominator ord))))"

subsection \<open>Token labels and the trade window\<close>

text \<open>
  Lines 140 and 141: \<open>token.symbol || token.name || token.address\<close>. A missing field
  and the empty string are both falsy.
\<close>

definition tokenLabel :: "token \<Rightarrow> string" where
  "tokenLabel t =
     (case symbol t of
        Some (c # cs) \<Rightarrow> c # cs
      | _ \<Rightarrow> (case name t of Some (c # cs) \<Rightarrow> c # cs | _ \<Rightarrow> address t))"

definition newline :: char where
  "newline = CHR 0x0A"

text \<open>Lines 144 to 150: the dates, with the start of the window only while it is ahead.\<close>

definition tradableLine :: "env \<Rightarrow> order \<Rightarrow> string" where
  "tradableLine ev ord =
     ''  - *Tradable*: `'' @ calendar ev (now ev) (validFrom ord) @ '' GMT`, `''
       @ fromNow ev (now ev) (validFrom ord) @ ''`''"

definition expiresLine :: "env \<Rightarrow> order \<Rightarrow> string" where
  "expiresLine ev ord =
     ''  - *Expires*: `'' @ calendar ev (now ev) (validUntil ord) @ '' GMT`, `''
       @ fromNow ev (now ev) (validUntil ord) @ ''`''"

definition datesDescription :: "env \<Rightarrow> order \<Rightarrow> string" where
  "datesDescription ev ord =
     (if validFrom ord > now ev then tradableLine ev ord @ [newline] else [])
     @ expiresLine ev ord"

subsection \<open>Formatting amounts\<close>

text \<open>
  Modelled from the spec: the module \<open>utils/format\<close> with \<open>formatAmount\<close> and
  \<open>formatAmountFull\<close> is not among the sources. The spec gives two contracts over
  a raw amount and a decimals count: a display format, truncated to a fixed small
  number of fractional digits (the field \<open>DISPLAY_DECIMALS\<close>, which the spec leaves
  open), and a full format, which keeps all \<open>decimals\<close> fractional digits. A raw
  amount that is negative or not an integer fails with \<open>InvalidOrderData\<close>;
  \<open>rawAmount\<close> is that check.
\<close>

fun rawAmount :: "bignumber \<Rightarrow> error + nat" where
  "rawAmount (Fin q) =
     (if q < 0 \<or> of_int \<lfloor>q\<rfloor> \<noteq> q then Inl InvalidOrderData else Inr (nat \<lfloor>q\<rfloor>))"
| "rawAmount _ = Inl InvalidOrderData"

definition padLeft :: "nat \<Rightarrow> string \<Rightarrow> string" where
  "padLeft k ds = replicate (k - length ds) (CHR ''0'') @ ds"

text \<open>The amount \<open>n / 10 ^ d\<close> with its first \<open>k\<close> fractional digits (\<open>k \<le> d\<close>).\<close>

definition renderAmount :: "nat \<Rightarrow> nat \<Rightarrow> nat \<Rightarrow> string" where
  "renderAmount n d k =
     digits (n div 10 ^ d)
     @ (if k = 0 then [] else ''.'' @ padLeft k (digits (n mod 10 ^ d div 10 ^ (d - k))))"

definition formatAmount :: "nat \<Rightarrow> bignumber \<Rightarrow> nat \<Rightarrow> error + string" where
  "formatAmount shown amount d =
     (case rawAmount amount of
        Inl e \<Rightarrow> Inl e
      | Inr n \<Rightarrow> Inr (renderAmount n d (min d shown)))"

definition formatAmountFull :: "bignumber \<Rightarrow> nat \<Rightarrow> error + string" where
  "formatAmountFull amount d =
     (case rawAmount amount of
        Inl e \<Rightarrow> Inl e
      | Inr n \<Rightarrow> Inr (renderAmount n d d))"

subsection \<open>The amounts of the message\<close>

text \<open>
  Line 16: \<open>FACTOR_TO_FILL_ORDER = 1 + 2 / FEE_DENOMINATOR\<close> in doubles (\<open>2 / 0\<close> is
  \<open>Infinity\<close> there), as the bignumber that \<open>multipliedBy\<close> makes of it.
\<close>

definition FACTOR_TO_FILL_ORDER :: "env \<Rightarrow> bignumber" where
  "FACTOR_TO_FILL_ORDER ev =
     (if FEE_DENOMINATOR ev = 0 then PInf
      else Fin (numberValue
             (roundDouble (1 + roundDouble (2 / roundDouble (of_nat (FEE_DENOMINATOR ev)))))))"

text \<open>Line 157: \<open>priceNumerator.multipliedBy(FACTOR_TO_FILL_ORDER)\<close>.\<close>

definition fillSellAmount :: "env \<Rightarrow> order \<Rightarrow> bignumber" where
  "fillSellAmount ev ord =
     multipliedBy (Fin (of_int (priceNumerator ord))) (FACTOR_TO_FILL_ORDER ev)"

text \<open>
  Lines 154 to 160: each amount goes through \<open>new BN(x.toString())\<close> and then
  through a formatter, in this order.
\<close>

definition sellAmountFmt :: "env \<Rightarrow> order \<Rightarrow> error + string" where
  "sellAmountFmt ev ord =
     (case BN ev (toString (Fin (of_int (priceDenominator ord)))) of
        Inl e \<Rightarrow> Inl e
      | Inr n \<Rightarrow> formatAmount (DISPLAY_DECIMALS ev) (Fin (of_int n)) (decimals (sellToken ord)))"

definition buyAmountFmt :: "env \<Rightarrow> order \<Rightarrow> error + string" where
  "buyAmountFmt ev ord =
     (case BN ev (toString (Fin (of_int (priceNumerator ord)))) of
        Inl e \<Rightarrow> Inl e
      | Inr n \<Rightarrow> formatAmount (DISPLAY_DECIMALS ev) (Fin (of_int n)) (decimals (buyToken ord)))"

definition fillSellAmountFmt :: "env \<Rightarrow> order \<Rightarrow> error + string" where
  "fillSellAmountFmt ev ord =
     (case BN ev (toString (fillSellAmount ev ord)) of
        Inl e \<Rightarrow> Inl e
      | Inr n \<Rightarrow> formatAmountFull (Fin (of_int n)) (decimals (buyToken ord)))"

definition buyAmountFullFmt :: "env \<Rightarrow> order \<Rightarrow> error + string" where
  "buyAmountFullFmt ev ord =
     (case BN ev (toString (Fin (of_int (priceDenominator ord)))) of
        Inl e \<Rightarrow> Inl e
      | Inr n \<Rightarrow> formatAmountFull (Fin (of_int n)) (decimals (sellToken ord)))"

subsection \<open>The message and the callback\<close>

definition headline :: "string \<Rightarrow> string \<Rightarrow> string \<Rightarrow> string \<Rightarrow> string" where
  "headline sellFmt sellTokenLabel buyFmt buyTokenLabel =
     ''Sell *'' @ sellFmt @ ''* `'' @ sellTokenLabel @ ''` for *''
       @ buyFmt @ ''* `'' @ buyTokenLabel @ ''`''"

definition priceLine :: "string \<Rightarrow> string \<Rightarrow> string \<Rightarrow> string" where
  "priceLine sellTokenLabel priceText buyTokenLabel =
     ''  - *Price*:  1 `'' @ sellTokenLabel @ ''` = '' @ priceText @ '' `''
       @ buyTokenLabel @ ''`''"

definition fillLink :: "string \<Rightarrow> string \<Rightarrow> string \<Rightarrow> string \<Rightarrow> string \<Rightarrow> string" where
  "fillLink baseUrl buyTokenLabel sellTokenLabel fillSellFmt buyFullFmt =
     baseUrl @ ''/trade/'' @ buyTokenLabel @ ''-'' @ sellTokenLabel
       @ ''?sell='' @ fillSellFmt @ ''&buy='' @ buyFullFmt"

text \<open>
  Lines 128 to 170: the message of one order, or the error of the first conversion
  or formatter that throws.
\<close>

definition composeMessage :: "env \<Rightarrow> order \<Rightarrow> error + string" where
  "composeMessage ev ord =
     (let sellTokenLabel = tokenLabel (sellToken ord);
          buyTokenLabel = tokenLabel (buyToken ord)
      in
      case sellAmountFmt ev ord of
        Inl e \<Rightarrow> Inl e
      | Inr sellFmt \<Rightarrow>
      (case buyAmountFmt ev ord of
        Inl e \<Rightarrow> Inl e
      | Inr buyFmt \<Rightarrow>
      (case fillSellAmountFmt ev ord of
        Inl e \<Rightarrow> Inl e
      | Inr fillSellFmt \<Rightarrow>
      (case buyAmountFullFmt ev ord of
        Inl e \<Rightarrow> Inl e
      | Inr buyFullFmt \<Rightarrow>
          Inr (headline sellFmt sellTokenLabel buyFmt buyTokenLabel
               @ [newline, newline]
               @ priceLine sellTokenLabel (toString (price ev ord)) buyTokenLabel
               @ [newline]
               @ datesDescription ev ord
               @ [newline, newline]
               @ ''Fill the order here: ''
               @ fillLink (WEB_BASE_URL ev) buyTokenLabel sellTokenLabel
                   fillSellFmt buyFullFmt)))))"




subsection \<open>Notions of the specification\<close>

text \<open>The lines of a text, and those that start with a given marker.\<close>

fun splitLines :: "string \<Rightarrow> string list" where
  "splitLines [] = [[]]"
| "splitLines (c # cs) =
     (if c = newline then [] # splitLines cs
      else (case splitLines cs of [] \<Rightarrow> [[c]] | l # ls \<Rightarrow> (c # l) # ls))"

definition oneLine :: "string \<Rightarrow> bool" where
  "oneLine s = (newline \<notin> set s)"

definition linesStarting :: "string \<Rightarrow> string \<Rightarrow> string list" where
  "linesStarting marker text = filter (prefix marker) (splitLines text)"

text \<open>
  The display label in the words of the specification: the first non-empty of
  symbol, name and address, in that priority.
\<close>

definition firstNonEmpty :: "string list \<Rightarrow> string" where
  "firstNonEmpty xs = (case filter (\<lambda>s. s \<noteq> []) xs of [] \<Rightarrow> [] | x # _ \<Rightarrow> x)"

definition displayLabel :: "token \<Rightarrow> string" where
  "displayLabel t =
     firstNonEmpty [case symbol t of None \<Rightarrow> [] | Some s \<Rightarrow> s,
                    case name t of None \<Rightarrow> [] | Some s \<Rightarrow> s,
                    address t]"

text \<open>
  Reading a decimal numeral back: digits, then optionally a point and digits. The
  result is the number it denotes; \<open>None\<close> for any other text.
\<close>

definition parseAmount :: "string \<Rightarrow> rat option" where
  "parseAmount s =
     (let whole = takeWhile (\<lambda>c. c \<noteq> CHR ''.'') s;
          rest = dropWhile (\<lambda>c. c \<noteq> CHR ''.'') s
      in case parseNat whole of
           None \<Rightarrow> None
         | Some i \<Rightarrow>
             (case rest of
                [] \<Rightarrow> Some (of_nat i)
              | _ # fdigits \<Rightarrow>
                  (case parseNat fdigits of
                     None \<Rightarrow> None
                   | Some f \<Rightarrow> Some (of_nat i + of_nat f / 10 ^ length fdigits))))"

text \<open>The ratio of section 4.1 of the specification, in exact arithmetic.\<close>

definition exactRatio :: "order \<Rightarrow> rat" where
  "exactRatio ord =
     (if decimals (buyToken ord) \<ge> decimals (sellToken ord)
      then of_int (priceNumerator ord)
           / (of_int (priceDenominator ord)
              * 10 ^ (decimals (buyToken ord) - decimals (sellToken ord)))
      else of_int (priceNumerator ord)
           * 10 ^ (decimals (sellToken ord) - decimals (buyToken ord))
           / of_int (priceDenominator ord))"

subsection \<open>The example of the specification\<close>

text \<open>
  One WETH (18 decimals) sold for 2000 USDC (6 decimals), valid from before the
  event until after it, with a fee denominator of 1000, four digits shown and
  bn.js 5.
\<close>

definition WETH :: token where
  "WETH = \<lparr>address = ''0xc02a'', symbol = Some ''WETH'', name = Some ''Wrapped Ether'',
           decimals = 18\<rparr>"

definition USDC :: token where
  "USDC = \<lparr>address = ''0xa0b8'', symbol = Some ''USDC'', name = Some ''USD Coin'',
           decimals = 6\<rparr>"

definition exampleOrder :: order where
  "exampleOrder = \<lparr>owner = ''0x0001'', buyToken = USDC, sellToken = WETH,
                    validFrom = 1000, validUntil = 9000,
                    priceNumerator = 2000000000, priceDenominator = 1000000000000000000\<rparr>"

definition exampleEnv :: env where
  "exampleEnv = \<lparr>WEB_BASE_URL = ''https://dex.example'', channelId = ''@orders'',
                  FEE_DENOMINATOR = 1000, DISPLAY_DECIMALS = 4, now = 5000,
                  calendar = (\<lambda>now t. if t < now then ''Yesterday at 1:00 PM''
                                       else ''Tomorrow at 1:00 PM''),
                  fromNow = (\<lambda>now t. if t < now then ''a day ago'' else ''in a day''),
                  POW10_BEYOND = (\<lambda>d. Fin (10 ^ d)),
                  BN_OTHER = (\<lambda>s. Inl InvalidCharacter)\<rparr>"

text \<open>The message of the bot for this order.\<close>

definition exampleMessage :: string where
  "exampleMessage =
     ''Sell *1.0000* `WETH` for *2000.0000* `USDC`'' @ [newline, newline]
     @ ''  - *Price*:  1 `WETH` = 2000 `USDC`'' @ [newline]
     @ ''  - *Expires*: `Tomorrow at 1:00 PM GMT`, `in a day`'' @ [newline, newline]
     @ ''Fill the order here: https://dex.example/trade/USDC-WETH''
     @ ''?sell=2004.000000&buy=1.000000000000000000''"



text \<open>Orders with equal decimals and a ratio of one third, and with small amounts.\<close>

definition oneThirdOrder :: order where
  "oneThirdOrder = exampleOrder\<lparr>buyToken := WETH, priceNumerator := 1, priceDenominator := 3\<rparr>"

definition zeroNumeratorOrder :: order where
  "zeroNumeratorOrder = exampleOrder\<lparr>priceNumerator := 0\<rparr>"

definition oneNumeratorOrder :: order where
  "oneNumeratorOrder = exampleOrder\<lparr>priceNumerator := 1\<rparr>"

section \<open>Properties\<close>

subsection \<open>Evaluating on numerals\<close>

lemma replicate_numeral: "replicate (numeral v) x = x # replicate (numeral v - 1) x"
  by (simp add: numeral_eq_Suc)

lemma floor_numeral_div: "\<lfloor>numeral a / numeral b :: rat\<rfloor> = numeral a div numeral b"
  using floor_divide_of_int_eq [of "numeral a" "numeral b", where ?'a = rat] by simp

lemma ceiling_numeral_div:
  "\<lceil>numeral a / numeral b :: rat\<rceil> = - ((- numeral a) div numeral b)"
  using ceiling_divide_eq_div [of "numeral a" "numeral b", where ?'a = rat] by simp


lemma shortest_numeral:
  "shortest (numeral v) j x =
     (if roundDouble (of_int \<lfloor>x * 10 ^ j\<rfloor> / 10 ^ j) = x
         \<and> roundDouble (of_int \<lceil>x * 10 ^ j\<rceil> / 10 ^ j) = x then
           (if x - of_int \<lfloor>x * 10 ^ j\<rfloor> / 10 ^ j < of_int \<lceil>x * 10 ^ j\<rceil> / 10 ^ j - x
            then of_int \<lfloor>x * 10 ^ j\<rfloor> / 10 ^ j
            else if of_int \<lceil>x * 10 ^ j\<rceil> / 10 ^ j - x < x - of_int \<lfloor>x * 10 ^ j\<rfloor> / 10 ^ j
            then of_int \<lceil>x * 10 ^ j\<rceil> / 10 ^ j
            else if even \<lfloor>x * 10 ^ j\<rfloor> then of_int \<lfloor>x * 10 ^ j\<rfloor> / 10 ^ j
            else of_int \<lceil>x * 10 ^ j\<rceil> / 10 ^ j)
         else if roundDouble (of_int \<lfloor>x * 10 ^ j\<rfloor> / 10 ^ j) = x
         then of_int \<lfloor>x * 10 ^ j\<rfloor> / 10 ^ j
         else if roundDouble (of_int \<lceil>x * 10 ^ j\<rceil> / 10 ^ j) = x
         then of_int \<lceil>x * 10 ^ j\<rceil> / 10 ^ j
         else shortest (pred_numeral v) (Suc j) x)"
  by (simp only: numeral_eq_Suc shortest.simps Let_def)

lemmas halvings_eval =
  halvings.simps [of "numeral a"] halvings.simps [of "numeral a / numeral b"]
  halvings.simps [of 1] halvings.simps [of "1 / numeral b"] for a b

lemmas doublings_eval =
  doublings.simps [of "numeral a"] doublings.simps [of "numeral a / numeral b"]
  doublings.simps [of 1] doublings.simps [of "1 / numeral b"] for a b

lemmas roundDouble_eval =
  roundDouble_def [of "numeral a"] roundDouble_def [of "numeral a / numeral b"]
  roundDouble_def [of 1] roundDouble_def [of "1 / numeral b"] for a b

lemmas eval_double =
  roundDouble_eval binaryExponent_def halvings_eval doublings_eval roundHalfEven_def Let_def
  floor_numeral_div ceiling_numeral_div numberValue_def shortest_numeral

lemmas eval_format =
  formatAmount_def formatAmountFull_def renderAmount_def padLeft_def digits.simps digitChar_def
  replicate_numeral floor_numeral_div

lemmas eval_toString =
  toStringFin_def decimalPlacesFrom.simps MAX_DP_def toFixedPoint_def toExponential_def
  stripTrailingZeros_def showInt_def TO_EXP_NEG_def TO_EXP_POS_def Let_def
  digits.simps digitChar_def replicate_numeral floor_numeral_div

lemmas eval_BN = BN_def parseNat_def digitValue_def

lemmas eval_price = price_def precisionFactor_def DECIMAL_PLACES_def round_half_up_def
  floor_numeral_div

lemmas example_defs = exampleEnv_def exampleOrder_def WETH_def USDC_def

subsection \<open>Rounding of the library\<close>

lemma round_half_up_exact:
  assumes "of_int \<lfloor>q * 10 ^ dp\<rfloor> = q * 10 ^ dp"
  shows "round_half_up dp q = q"
proof -
  obtain z :: int where z: "q * 10 ^ dp = of_int z"
    using assms by metis
  have "\<bar>q\<bar> * 10 ^ dp = \<bar>q * 10 ^ dp\<bar>"
    by (simp add: abs_mult)
  also have "\<dots> = of_int \<bar>z\<bar>"
    by (simp add: z)
  finally have a: "\<bar>q\<bar> * 10 ^ dp = of_int \<bar>z\<bar>" .
  have "\<lfloor>(of_int y :: rat) + 1 / 2\<rfloor> = y" for y :: int
    by (rule floor_unique) auto
  then have "round_half_up dp q = sgn q * (\<bar>q\<bar> * 10 ^ dp) / 10 ^ dp"
    unfolding round_half_up_def a by (simp only:)
  also have "\<dots> = sgn q * \<bar>q\<bar>"
    by simp
  finally show ?thesis
    by (simp add: sgn_mult_abs)
qed

lemma round_half_up_error: "\<bar>round_half_up dp q - q\<bar> \<le> 1 / (2 * 10 ^ dp)"
proof -
  define s :: rat where "s = 10 ^ dp"
  define a where "a = \<bar>q\<bar> * s"
  have s: "s > 0" by (simp add: s_def)
  have f1: "of_int \<lfloor>a + 1 / 2\<rfloor> \<le> a + 1 / 2" by (rule of_int_floor_le)
  have f2: "a + 1 / 2 < of_int \<lfloor>a + 1 / 2\<rfloor> + 1" by linarith
  have b: "\<bar>of_int \<lfloor>a + 1 / 2\<rfloor> - a\<bar> \<le> 1 / 2" using f1 f2 by linarith
  have "round_half_up dp q - q = sgn q * (of_int \<lfloor>a + 1 / 2\<rfloor> - a) / s"
    using s by (simp add: round_half_up_def a_def s_def field_simps sgn_mult_abs)
       (metis mult.commute sgn_mult_abs mult.assoc)
  then have "\<bar>round_half_up dp q - q\<bar> = \<bar>sgn q\<bar> * \<bar>of_int \<lfloor>a + 1 / 2\<rfloor> - a\<bar> / s"
    using s by (simp add: abs_mult)
  also have "\<dots> \<le> 1 * (1 / 2) / s"
    using s b by (intro divide_right_mono mult_mono) (auto simp: abs_sgn_eq)
  finally show ?thesis by (simp add: s_def)
qed

subsection \<open>Doubles\<close>

lemma halvings_bounds: "1 \<le> x \<Longrightarrow> 2 ^ halvings x \<le> x \<and> x < 2 ^ Suc (halvings x)"
proof (induction x rule: halvings.induct)
  case (1 x)
  show ?case
  proof (cases "x < 2")
    case True
    then have "halvings x = 0"
      by (subst halvings.simps) simp
    then show ?thesis
      using True "1.prems" by simp
  next
    case False
    then have "1 \<le> x / 2"
      by simp
    with "1.IH" False have IH: "2 ^ halvings (x / 2) \<le> x / 2 \<and> x / 2 < 2 ^ Suc (halvings (x / 2))"
      by simp
    have h: "halvings x = Suc (halvings (x / 2))"
      using False by (subst halvings.simps) simp
    show ?thesis
      unfolding h using IH by simp
  qed
qed

lemma doublings_bounds:
  "0 < x \<Longrightarrow> x < 1 \<Longrightarrow> 1 \<le> x * 2 ^ doublings x \<and> x * 2 ^ doublings x < 2"
proof (induction x rule: doublings.induct)
  case (1 x)
  have h: "doublings x = Suc (doublings (2 * x))"
    using "1.prems" by (subst doublings.simps) simp
  show ?case
  proof (cases "1 \<le> 2 * x")
    case True
    then have "doublings (2 * x) = 0"
      by (subst doublings.simps) simp
    then show ?thesis
      unfolding h using True "1.prems" by simp
  next
    case False
    then have "1 \<le> 2 * x * 2 ^ doublings (2 * x) \<and> 2 * x * 2 ^ doublings (2 * x) < 2"
      using "1.IH" "1.prems" by simp
    then show ?thesis
      unfolding h by (simp add: mult.assoc mult.left_commute)
  qed
qed

lemma binaryExponent_bounds:
  assumes "0 < x"
  shows "2 powi binaryExponent x \<le> x" and "x < 2 powi (binaryExponent x + 1)"
proof -
  have "2 powi binaryExponent x \<le> x \<and> x < 2 powi (binaryExponent x + 1)"
  proof (cases "1 \<le> x")
    case True
    have "2 powi (int (halvings x) + 1) = (2::rat) ^ Suc (halvings x)"
      by (simp add: power_int_add_1)
    then show ?thesis
      using halvings_bounds [OF True] True by (simp add: binaryExponent_def)
  next
    case False
    let ?n = "doublings x"
    have b: "1 \<le> x * 2 ^ ?n" "x * 2 ^ ?n < 2"
      using doublings_bounds [of x] assms False by simp_all
    have p: "(2::rat) powi (- int ?n) = 1 / 2 ^ ?n"
      by (simp add: power_int_minus_divide)
    have "(2::rat) powi (- int ?n + 1) = 2 powi (- int ?n) * 2"
      by (rule power_int_add_1) simp
    then have q: "(2::rat) powi (1 - int ?n) = 2 / 2 ^ ?n"
      by (simp add: p)
    show ?thesis
      using b False by (simp add: binaryExponent_def p q field_simps)
  qed
  then show "2 powi binaryExponent x \<le> x" and "x < 2 powi (binaryExponent x + 1)"
    by simp_all
qed

lemma roundHalfEven_floor: "\<lfloor>q\<rfloor> \<le> roundHalfEven q"
  by (simp add: roundHalfEven_def Let_def)

lemma roundHalfEven_close: "\<bar>of_int (roundHalfEven q) - q\<bar> \<le> 1 / 2"
proof -
  have "of_int \<lfloor>q\<rfloor> \<le> q" "q < of_int \<lfloor>q\<rfloor> + 1"
    by linarith+
  then show ?thesis
    by (auto simp: roundHalfEven_def Let_def)
qed

lemma roundHalfEven_of_int: "roundHalfEven (of_int k) = k"
  by (simp add: roundHalfEven_def)

lemma roundDouble_close:
  assumes "0 < x"
  shows "\<bar>roundDouble x - x\<bar> \<le> x / 2 ^ 53"
proof -
  define e where "e = binaryExponent x"
  define u :: rat where "u = 2 powi (e - 52)"
  have u: "0 < u"
    by (simp add: u_def)
  have "roundDouble x - x = (of_int (roundHalfEven (x / u)) - x / u) * u"
    using u by (simp add: roundDouble_def Let_def u_def e_def algebra_simps)
  then have "\<bar>roundDouble x - x\<bar> = \<bar>of_int (roundHalfEven (x / u)) - x / u\<bar> * u"
    using u by (simp add: abs_mult)
  also have "\<dots> \<le> 1 / 2 * u"
    using u roundHalfEven_close [of "x / u"] by (intro mult_right_mono) simp_all
  also have "1 / 2 * u = 2 powi e / 2 ^ 53"
    by (simp add: u_def power_int_diff)
  also have "\<dots> \<le> x / 2 ^ 53"
    using binaryExponent_bounds(1) [OF assms] by (simp add: e_def divide_right_mono)
  finally show ?thesis .
qed

lemma roundDouble_lower:
  assumes "0 < x"
  shows "2 powi binaryExponent x \<le> roundDouble x"
proof -
  define e where "e = binaryExponent x"
  define u :: rat where "u = 2 powi (e - 52)"
  have u: "0 < u"
    by (simp add: u_def)
  have eu: "2 powi e = 2 ^ 52 * u"
    by (simp add: u_def power_int_diff)
  have "2 powi e \<le> x"
    using binaryExponent_bounds(1) [OF assms] by (simp add: e_def)
  then have "2 ^ 52 * u \<le> x"
    by (simp only: eu)
  then have "(2 ^ 52 :: rat) \<le> x / u"
    using u by (simp add: pos_le_divide_eq)
  then have "(2 ^ 52 :: int) \<le> \<lfloor>x / u\<rfloor>"
    by (simp add: le_floor_iff)
  then have "(2 ^ 52 :: int) \<le> roundHalfEven (x / u)"
    using roundHalfEven_floor [of "x / u"] by linarith
  then have "(of_int (2 ^ 52) :: rat) \<le> of_int (roundHalfEven (x / u))"
    by (simp only: of_int_le_iff)
  then have "2 ^ 52 * u \<le> of_int (roundHalfEven (x / u)) * u"
    using u by (intro mult_right_mono) simp_all
  then show ?thesis
    by (simp add: roundDouble_def Let_def eu [unfolded e_def] u_def e_def)
qed

lemma roundDouble_pos: "0 < x \<Longrightarrow> 0 < roundDouble x"
  using roundDouble_lower [of x] zero_less_power_int [of "2::rat" "binaryExponent x"]
  by linarith


lemma roundDouble_1: "roundDouble 1 = 1"
  by (simp add: roundDouble_def binaryExponent_def halvings.simps roundHalfEven_def Let_def)

lemma roundDouble_of_nat:
  assumes "0 < F" and "F \<le> 2 ^ 52"
  shows "roundDouble (of_nat F) = of_nat F"
proof -
  define x :: rat where "x = of_nat F"
  define e where "e = binaryExponent x"
  have x: "0 < x" "x \<le> 2 ^ 52"
    using assms by (simp_all add: x_def)
  have "2 powi e \<le> x"
    using binaryExponent_bounds(1) [OF x(1)] by (simp add: e_def)
  then have "(2::rat) powi e \<le> 2 powi 52"
    using x(2) by simp
  then have e: "e \<le> 52"
    by (rule power_int_le_imp_le_exp [rotated]) simp_all
  define k where "k = nat (52 - e)"
  have u: "(2::rat) powi (e - 52) = 1 / 2 ^ k"
    using e by (simp add: k_def power_int_def power_one_over)
  have "x / (1 / 2 ^ k) = of_int (int F * 2 ^ k)"
    by (simp add: x_def)
  then have "roundHalfEven (x / (1 / 2 ^ k)) = int F * 2 ^ k"
    by (simp only: roundHalfEven_of_int)
  then have "roundDouble x = of_int (int F * 2 ^ k) * (1 / 2 ^ k)"
    by (simp add: roundDouble_def Let_def u [unfolded e_def])
  then show ?thesis
    by (simp add: x_def)
qed


lemma floor_scaled_ge:
  assumes "1 \<le> (x :: rat)"
  shows "(10 ^ j :: int) \<le> \<lfloor>x * 10 ^ j\<rfloor>"
proof -
  have "(1 :: rat) * 10 ^ j \<le> x * 10 ^ j"
    using assms by (intro mult_right_mono) simp_all
  then have "(of_int (10 ^ j) :: rat) \<le> x * 10 ^ j"
    by simp
  then show ?thesis
    by (simp only: le_floor_iff)
qed

lemma scaled_ge_1:
  assumes "(10 ^ j :: int) \<le> k"
  shows "(1 :: rat) \<le> of_int k / 10 ^ j"
proof -
  have "(of_int (10 ^ j) :: rat) \<le> of_int k"
    using assms by (simp only: of_int_le_iff)
  then show ?thesis
    by (simp add: pos_le_divide_eq)
qed

lemma scaled_gt_1:
  assumes "(10 ^ j :: int) < k"
  shows "(1 :: rat) < of_int k / 10 ^ j"
proof -
  have "(of_int (10 ^ j) :: rat) < of_int k"
    using assms by (simp only: of_int_less_iff)
  then show ?thesis
    by (simp add: pos_less_divide_eq)
qed


lemma shortest_gt_1:
  "1 + 1 / 10 ^ (n + j) \<le> x \<Longrightarrow> 1 < shortest n j x"
proof (induction n arbitrary: j)
  case 0
  have "(1 + 1 / 10 ^ j) * 10 ^ j \<le> x * (10 ^ j :: rat)"
    using 0 by (intro mult_right_mono) simp_all
  then have "(of_int (10 ^ j + 1) :: rat) \<le> x * 10 ^ j"
    by (simp add: distrib_right)
  then have "(10 ^ j + 1 :: int) \<le> \<lfloor>x * 10 ^ j\<rfloor>"
    by (simp only: le_floor_iff)
  then have "(10 ^ j :: int) < roundHalfEven (x * 10 ^ j)"
    using roundHalfEven_floor [of "x * 10 ^ j"] by linarith
  then show ?case
    by (simp add: scaled_gt_1)
next
  case (Suc n)
  have "(0 :: rat) < 1 / 10 ^ (Suc n + j)"
    by simp
  then have x: "1 < x"
    using Suc.prems by linarith
  then have x1: "1 \<le> x"
    by simp
  let ?lo = "of_int \<lfloor>x * 10 ^ j\<rfloor> / 10 ^ j :: rat"
  let ?hi = "of_int \<lceil>x * 10 ^ j\<rceil> / 10 ^ j :: rat"
  have lo: "1 < ?lo" if "roundDouble ?lo = x"
  proof -
    have "1 \<le> ?lo"
      using floor_scaled_ge [OF x1, of j] by (rule scaled_ge_1)
    moreover have "?lo \<noteq> 1"
    proof
      assume "?lo = 1"
      then have "roundDouble ?lo = 1"
        by (simp only: roundDouble_1)
      with that x show False
        by simp
    qed
    ultimately show ?thesis
      by simp
  qed
  have "x * 10 ^ j \<le> of_int \<lceil>x * 10 ^ j\<rceil>"
    by (rule le_of_int_ceiling)
  then have "x \<le> ?hi"
    by (simp add: pos_le_divide_eq)
  then have hi: "1 < ?hi"
    using x by linarith
  have "1 < shortest n (Suc j) x"
    using Suc.prems by (intro Suc.IH) simp
  then show ?case
    using lo hi by (simp add: Let_def)
qed

lemma shortest_close:
  assumes "1 \<le> x" and "2 ^ 53 \<le> (4 :: rat) * 10 ^ (n + j)"
  shows "\<bar>shortest n j x - x\<bar> \<le> (x + 1) / 2 ^ 53"
  using assms
proof (induction n arbitrary: j)
  case 0
  define m where "m = x * 10 ^ j"
  have "of_int (roundHalfEven m) / 10 ^ j - x = (of_int (roundHalfEven m) - m) / 10 ^ j"
    by (simp add: m_def diff_divide_distrib)
  then have "\<bar>of_int (roundHalfEven m) / 10 ^ j - x\<bar> = \<bar>of_int (roundHalfEven m) - m\<bar> / 10 ^ j"
    by (simp only: abs_divide) simp
  also have "\<dots> \<le> (1 / 2) / 10 ^ j"
    using roundHalfEven_close [of m] by (intro divide_right_mono) simp_all
  also have "\<dots> \<le> 2 / 2 ^ 53"
    using "0.prems"(2) by (simp add: field_simps)
  also have "\<dots> \<le> (x + 1) / 2 ^ 53"
    using "0.prems"(1) by (intro divide_right_mono) simp_all
  finally show ?case
    by (simp add: m_def)
next
  case (Suc n)
  let ?lo = "of_int \<lfloor>x * 10 ^ j\<rfloor> / 10 ^ j :: rat"
  let ?hi = "of_int \<lceil>x * 10 ^ j\<rceil> / 10 ^ j :: rat"
  have lo1: "1 \<le> ?lo"
    using floor_scaled_ge [OF Suc.prems(1), of j] by (rule scaled_ge_1)
  have "of_int \<lfloor>x * 10 ^ j\<rfloor> \<le> x * 10 ^ j"
    by (rule of_int_floor_le)
  then have lox: "?lo \<le> x"
    by (simp add: pos_divide_le_eq)
  have "x * 10 ^ j \<le> of_int \<lceil>x * 10 ^ j\<rceil>"
    by (rule le_of_int_ceiling)
  then have xhi: "x \<le> ?hi"
    by (simp add: pos_le_divide_eq)
  have "of_int \<lceil>x * 10 ^ j\<rceil> < x * 10 ^ j + 1"
    by linarith
  then have "?hi < (x * 10 ^ j + 1) / 10 ^ j"
    by (simp add: divide_strict_right_mono)
  also have "\<dots> = x + 1 / 10 ^ j"
    by (simp add: add_divide_distrib)
  also have "\<dots> \<le> x + 1"
    by (simp add: divide_le_eq_1)
  finally have hix: "?hi \<le> x + 1"
    by simp
  have c: "\<bar>c - x\<bar> \<le> (x + 1) / 2 ^ 53" if "roundDouble c = x" "0 < c" "c \<le> x + 1" for c
  proof -
    have "\<bar>c - x\<bar> = \<bar>roundDouble c - c\<bar>"
      using that(1) by simp
    also have "\<dots> \<le> c / 2 ^ 53"
      using that(2) by (rule roundDouble_close)
    also have "\<dots> \<le> (x + 1) / 2 ^ 53"
      using that(3) by (intro divide_right_mono) simp_all
    finally show ?thesis .
  qed
  have lo0: "0 < ?lo" and lox1: "?lo \<le> x + 1"
    using lo1 lox by linarith+
  have hi0: "0 < ?hi"
    using xhi Suc.prems(1) by linarith
  have clo: "\<bar>?lo - x\<bar> \<le> (x + 1) / 2 ^ 53" if "roundDouble ?lo = x"
    using that lo0 lox1 by (rule c)
  have chi: "\<bar>?hi - x\<bar> \<le> (x + 1) / 2 ^ 53" if "roundDouble ?hi = x"
    using that hi0 hix by (rule c)
  have rest: "\<bar>shortest n (Suc j) x - x\<bar> \<le> (x + 1) / 2 ^ 53"
    using Suc.prems by (intro Suc.IH) simp_all
  show ?case
    using clo chi rest by (simp add: Let_def)
qed


lemma numberValue_gt_1: "1 + 1 / 10 ^ 16 \<le> x \<Longrightarrow> 1 < numberValue x"
  unfolding numberValue_def by (rule shortest_gt_1) simp

lemma numberValue_close: "1 \<le> x \<Longrightarrow> \<bar>numberValue x - x\<bar> \<le> (x + 1) / 2 ^ 53"
  unfolding numberValue_def by (rule shortest_close) simp_all


text \<open>
  For a fee denominator up to \<open>2 ^ 52\<close> the factor is more than 1 and within
  \<open>2 ^ -49\<close> of \<open>1 + 2 / FEE_DENOMINATOR\<close>: the three roundings of the double
  arithmetic and of its printing.
\<close>

lemma FACTOR_TO_FILL_ORDER_close:
  assumes "0 < FEE_DENOMINATOR ev" and "FEE_DENOMINATOR ev \<le> 2 ^ 52"
  shows "\<exists>f. FACTOR_TO_FILL_ORDER ev = Fin f \<and> 1 < f
           \<and> \<bar>f - (1 + 2 / of_nat (FEE_DENOMINATOR ev))\<bar> \<le> 1 / 2 ^ 49"
proof -
  define F where "F = FEE_DENOMINATOR ev"
  define y' :: rat where "y' = 2 / of_nat F"
  define y where "y = roundDouble y'"
  define x where "x = roundDouble (1 + y)"
  have F0: "0 < F" and F52: "F \<le> 2 ^ 52"
    using assms by (simp_all add: F_def)
  have f: "FACTOR_TO_FILL_ORDER ev = Fin (numberValue x)"
    using F0 by (simp add: FACTOR_TO_FILL_ORDER_def x_def y_def y'_def
        roundDouble_of_nat [OF F0 F52] F_def [symmetric])
  have "(of_nat F :: rat) \<le> of_nat (2 ^ 52)"
    using F52 by (simp only: of_nat_le_iff)
  then have F: "(of_nat F :: rat) \<le> 2 ^ 52" "(1 :: rat) \<le> of_nat F"
    using F0 by simp_all
  have y'1: "1 / 2 ^ 51 \<le> y'"
    using F F0 by (simp add: y'_def field_simps)
  have y'2: "y' \<le> 2"
    using F F0 by (simp add: y'_def field_simps)
  have "(0 :: rat) < 1 / 2 ^ 51"
    by simp
  with y'1 have y'0: "0 < y'"
    by linarith
  have ey: "\<bar>y - y'\<bar> \<le> y' / 2 ^ 53"
    unfolding y_def using y'0 by (rule roundDouble_close)
  have y0: "0 < y"
    unfolding y_def using y'0 by (rule roundDouble_pos)
  have ex: "\<bar>x - (1 + y)\<bar> \<le> (1 + y) / 2 ^ 53"
    unfolding x_def using y0 by (intro roundDouble_close) simp
  have x1: "1 + 1 / 10 ^ 16 \<le> x"
    using ex ey y'1 unfolding abs_le_iff by simp
  then have x0: "1 \<le> x"
    by simp
  have g: "1 < numberValue x"
    using x1 by (rule numberValue_gt_1)
  have ef: "\<bar>numberValue x - x\<bar> \<le> (x + 1) / 2 ^ 53"
    using x0 by (rule numberValue_close)
  have c: "\<bar>numberValue x - (1 + y')\<bar> \<le> 1 / 2 ^ 49"
    using ef ex ey y'2 y'0 unfolding abs_le_iff by simp
  show ?thesis
    using f g c by (simp add: y'_def F_def)
qed

subsection \<open>Digits and their reading\<close>

lemma digitValue_digitChar: "d < 10 \<Longrightarrow> digitValue (digitChar d) = Some d"
proof -
  assume "d < 10"
  then consider "d = 0" | "d = 1" | "d = 2" | "d = 3" | "d = 4" | "d = 5" | "d = 6"
    | "d = 7" | "d = 8" | "d = 9"
    by atomize_elim arith
  then show ?thesis
    by cases (simp_all add: digitValue_def digitChar_def)
qed

lemma digitChar_range: "d < 10 \<Longrightarrow> digitChar d \<in> set ''0123456789''"
  unfolding digitChar_def by (rule nth_mem) simp

lemma digits_range: "set (digits n) \<subseteq> set ''0123456789''"
proof (induction n rule: digits.induct)
  case (1 n)
  show ?case
  proof (cases "n < 10")
    case True
    then show ?thesis
      using digitChar_range [of n] by (subst digits.simps) simp
  next
    case False
    have "digitChar (n mod 10) \<in> set ''0123456789''"
      by (rule digitChar_range) simp
    with False 1 show ?thesis
      by (subst digits.simps) simp
  qed
qed

lemma digits_not_Nil: "digits n \<noteq> []"
  by (subst digits.simps) simp

lemma parseDigits_append:
  "parseDigits acc (xs @ ys)
   = (case parseDigits acc xs of None \<Rightarrow> None | Some a \<Rightarrow> parseDigits a ys)"
  by (induction xs arbitrary: acc) (auto split: option.splits)

lemma parseDigits_digits:
  "parseDigits acc (digits n) = Some (acc * 10 ^ length (digits n) + n)"
proof (induction n arbitrary: acc rule: digits.induct)
  case (1 n)
  show ?case
  proof (cases "n < 10")
    case True
    then show ?thesis
      by (subst (1 2) digits.simps) (simp add: digitValue_digitChar)
  next
    case False
    have d: "digitValue (digitChar (n mod 10)) = Some (n mod 10)"
      by (rule digitValue_digitChar) simp
    have "parseDigits acc (digits n)
          = parseDigits acc (digits (n div 10) @ [digitChar (n mod 10)])"
      using False by (subst digits.simps) simp
    also have "\<dots> = Some (10 * (acc * 10 ^ length (digits (n div 10)) + n div 10) + n mod 10)"
      using False by (simp add: parseDigits_append 1 d)
    also have "10 * (acc * 10 ^ length (digits (n div 10)) + n div 10) + n mod 10
               = acc * 10 ^ Suc (length (digits (n div 10))) + n"
      by (simp add: algebra_simps)
    also have "Suc (length (digits (n div 10))) = length (digits n)"
      using False by (subst (2) digits.simps) simp
    finally show ?thesis .
  qed
qed

lemma parseDigits_zeros: "parseDigits acc (replicate k (CHR ''0'')) = Some (acc * 10 ^ k)"
  by (induction k arbitrary: acc) (simp_all add: digitValue_def)

lemma parseDigits_padLeft: "parseDigits 0 (padLeft k (digits n)) = Some n"
  by (simp add: padLeft_def parseDigits_append parseDigits_zeros parseDigits_digits)

lemma length_digits_le:
  "n < 10 ^ k \<Longrightarrow> 0 < k \<Longrightarrow> length (digits n) \<le> k"
proof (induction n arbitrary: k rule: digits.induct)
  case (1 n)
  show ?case
  proof (cases "n < 10")
    case True
    then show ?thesis
      using "1.prems" by (subst digits.simps) simp
  next
    case False
    obtain j where k: "k = Suc j"
      using "1.prems"(2) by (cases k) auto
    have j: "0 < j"
      using False "1.prems"(1) by (cases j) (auto simp: k)
    have "n div 10 < 10 ^ j"
      using "1.prems"(1) by (simp add: k less_mult_imp_div_less mult.commute)
    then have "length (digits (n div 10)) \<le> j"
      using 1 False j by simp
    then show ?thesis
      using False by (subst digits.simps) (simp add: k)
  qed
qed

lemma length_padLeft: "length ds \<le> k \<Longrightarrow> length (padLeft k ds) = k"
  by (simp add: padLeft_def)

lemma point_not_digit: "CHR ''.'' \<notin> set (digits n)"
  using digits_range [of n] by auto


lemma takeWhile_digits: "takeWhile (\<lambda>c. c \<noteq> CHR ''.'') (digits n @ rest)
    = digits n @ takeWhile (\<lambda>c. c \<noteq> CHR ''.'') rest"
  using point_not_digit [of n] by (intro takeWhile_append2) auto

lemma dropWhile_digits: "dropWhile (\<lambda>c. c \<noteq> CHR ''.'') (digits n @ rest)
    = dropWhile (\<lambda>c. c \<noteq> CHR ''.'') rest"
  using point_not_digit [of n] by (intro dropWhile_append2) auto

lemma parseNat_digits: "parseNat (digits n) = Some n"
  by (simp add: parseNat_def digits_not_Nil parseDigits_digits)

lemma parseNat_padLeft: "parseNat (padLeft k (digits n)) = Some n"
  by (simp add: parseNat_def parseDigits_padLeft) (simp add: padLeft_def digits_not_Nil)

lemma parseAmount_renderAmount:
  "\<exists>q. parseAmount (renderAmount n d d) = Some q \<and> q * 10 ^ d = of_nat n"
proof (cases "d = 0")
  case True
  have "parseAmount (digits n) = Some (of_nat n)"
    using takeWhile_digits [of n "[]"] dropWhile_digits [of n "[]"]
    by (simp add: parseAmount_def parseNat_digits del: takeWhile_eq_all_conv dropWhile_eq_Nil_conv)
  then show ?thesis
    using True by (simp add: renderAmount_def)
next
  case False
  let ?i = "n div 10 ^ d" and ?f = "n mod 10 ^ d"
  let ?fs = "padLeft d (digits ?f)"
  have len: "length ?fs = d"
    using False by (intro length_padLeft length_digits_le) simp_all
  have r: "renderAmount n d d = digits ?i @ CHR ''.'' # ?fs"
    using False by (simp add: renderAmount_def)
  have "parseAmount (renderAmount n d d) = Some (of_nat ?i + of_nat ?f / 10 ^ d)"
    unfolding r parseAmount_def takeWhile_digits dropWhile_digits
    by (simp add: parseNat_digits parseNat_padLeft len)
  moreover have "(of_nat ?i + of_nat ?f / 10 ^ d) * 10 ^ d = (of_nat n :: rat)"
  proof -
    have "(of_nat ?i + of_nat ?f / 10 ^ d) * 10 ^ d = (of_nat ?i * 10 ^ d + of_nat ?f :: rat)"
      by (simp add: distrib_right)
    also have "\<dots> = of_nat (?i * 10 ^ d + ?f)"
      by (simp only: of_nat_add of_nat_mult of_nat_power of_nat_numeral)
    also have "?i * 10 ^ d + ?f = n"
      by (rule div_mult_mod_eq)
    finally show ?thesis .
  qed
  ultimately show ?thesis
    by simp
qed

subsection \<open>The text of an integer and its reading by bn.js\<close>

lemma takeWhile_replicate:
  "takeWhile (\<lambda>x. x = c) xs = replicate (length (takeWhile (\<lambda>x. x = c) xs)) c"
  by (induction xs) auto

lemma stripTrailingZeros_append:
  "stripTrailingZeros ds
   @ replicate (length ds - length (stripTrailingZeros ds)) (CHR ''0'') = ds"
proof -
  let ?P = "\<lambda>c. c = CHR ''0''"
  let ?t = "takeWhile ?P (rev ds)" and ?d = "dropWhile ?P (rev ds)"
  have "rev (?t @ ?d) = rev (rev ds)"
    by (simp only: takeWhile_dropWhile_id)
  then have ds: "rev ?d @ rev ?t = ds"
    by (simp only: rev_append rev_rev_ident)
  have "length (rev ?d @ rev ?t) = length ?d + length ?t"
    by simp
  then have "length ds = length ?d + length ?t"
    by (simp only: ds)
  then have len: "length ds - length (stripTrailingZeros ds) = length ?t"
    by (simp add: stripTrailingZeros_def)
  have "rev ?t = replicate (length ?t) (CHR ''0'')"
    by (subst takeWhile_replicate) simp
  then show ?thesis
    unfolding len using ds by (simp add: stripTrailingZeros_def)
qed

lemma length_stripTrailingZeros: "length (stripTrailingZeros ds) \<le> length ds"
  by (simp add: stripTrailingZeros_def length_dropWhile_le [of _ "rev ds", simplified])

lemma toFixedPoint_digits:
  assumes "ds \<noteq> []"
  shows "toFixedPoint (stripTrailingZeros ds) (int (length ds) - 1) = ds"
proof -
  have e: "Suc (nat (int (length ds) - 1)) = length ds" and p: "\<not> int (length ds) - 1 < 0"
    using assms by (cases ds; simp)+
  show ?thesis
    using assms length_stripTrailingZeros [of ds] stripTrailingZeros_append [of ds]
    by (auto simp: toFixedPoint_def Let_def e p)
qed

lemma length_digits_pos: "0 < length (digits n)"
  using digits_not_Nil [of n] by simp

lemma toStringFin_of_nat:
  assumes "0 < n" and "n < 10 ^ 21"
  shows "toStringFin (of_nat n) = digits n" and "toStringFin (- of_nat n) = CHR ''-'' # digits n"
proof -
  have k: "decimalPlacesFrom (of_nat n) 0 = 0"
    by (subst decimalPlacesFrom.simps) simp
  have l: "length (digits n) \<le> 21"
    using assms(2) by (intro length_digits_le) simp_all
  have e: "\<not> int (length (digits n)) - 1 \<le> TO_EXP_NEG" "\<not> TO_EXP_POS \<le> int (length (digits n)) - 1"
    using l length_digits_pos [of n] by (simp_all add: TO_EXP_NEG_def TO_EXP_POS_def)
  have n: "(0 :: rat) < of_nat n"
    using assms(1) by simp
  show "toStringFin (of_nat n) = digits n"
    using e n by (simp add: toStringFin_def k toFixedPoint_digits digits_not_Nil)
  show "toStringFin (- of_nat n) = CHR ''-'' # digits n"
    using e n by (simp add: toStringFin_def k toFixedPoint_digits digits_not_Nil)
qed

lemma digits_0: "digits 0 = ''0''"
  by (subst digits.simps) (simp add: digitChar_def)

lemma toString_of_nat: "n < 10 ^ 21 \<Longrightarrow> toString (Fin (of_nat n)) = digits n"
  by (cases "n = 0") (simp_all add: digits_0 toStringFin_of_nat)

lemma toString_minus_of_nat:
  "0 < n \<Longrightarrow> n < 10 ^ 21 \<Longrightarrow> toString (Fin (- of_nat n)) = CHR ''-'' # digits n"
  by (simp add: toStringFin_of_nat)

lemma minus_not_digit: "CHR ''-'' \<notin> set (digits n)"
  using digits_range [of n] by auto

lemma BN_digits: "BN ev (digits n) = Inr (int n)"
proof -
  obtain c cs where d: "digits n = c # cs"
    using digits_not_Nil [of n] by (cases "digits n") auto
  then have "c \<noteq> CHR ''-''"
    using minus_not_digit [of n] by auto
  then show ?thesis
    using parseNat_digits [of n] by (simp add: BN_def d)
qed

lemma BN_minus_digits: "BN ev (CHR ''-'' # digits n) = Inr (- int n)"
  by (simp add: BN_def parseNat_digits)

text \<open>
  An integer of fewer than 22 digits prints as its digits, and bn.js reads it
  back.
\<close>

lemma BN_toString:
  assumes "- (10 ^ 21) < n" and "n < 10 ^ 21"
  shows "BN ev (toString (Fin (of_int n))) = Inr n"
proof (cases "0 \<le> n")
  case True
  then have "(of_int n :: rat) = of_nat (nat n)" and "nat n < 10 ^ 21"
    using assms(2) by (simp_all add: nat_less_iff)
  then show ?thesis
    using True by (simp only: toString_of_nat BN_digits) simp
next
  case False
  then have "(of_int n :: rat) = - of_nat (nat (- n))" and "nat (- n) < 10 ^ 21"
    and "0 < nat (- n)"
    using assms(1) by (simp_all add: nat_less_iff)
  then show ?thesis
    using False by (simp only: toString_minus_of_nat BN_minus_digits) simp
qed

lemma BN_toString_of_nat: "k < 10 ^ 21 \<Longrightarrow> BN ev (toString (Fin (of_nat k))) = Inr (int k)"
  by (simp only: toString_of_nat BN_digits)

subsection \<open>The price\<close>

lemma price_dividedBy:
  assumes "decimals (buyToken ord) \<le> decimals (sellToken ord) + 22"
    and "decimals (sellToken ord) \<le> decimals (buyToken ord) + 22"
  shows "price ev ord =
     (if decimals (buyToken ord) \<ge> decimals (sellToken ord)
      then dividedBy (Fin (of_int (priceNumerator ord)))
             (Fin (of_int (priceDenominator ord)
                   * 10 ^ (decimals (buyToken ord) - decimals (sellToken ord))))
      else dividedBy
             (Fin (of_int (priceNumerator ord)
                   * 10 ^ (decimals (sellToken ord) - decimals (buyToken ord))))
             (Fin (of_int (priceDenominator ord))))"
proof (cases "decimals (buyToken ord) \<ge> decimals (sellToken ord)")
  case True
  then have "decimals (buyToken ord) - decimals (sellToken ord) \<le> 22"
    using assms by linarith
  then show ?thesis
    using True by (simp add: price_def precisionFactor_def)
next
  case False
  then have "decimals (sellToken ord) - decimals (buyToken ord) \<le> 22"
    using assms by linarith
  then show ?thesis
    using False by (simp add: price_def precisionFactor_def)
qed

text \<open>
  With a denominator other than zero, and powers of ten that doubles hold, the
  price is the exact ratio rounded to the library's twenty decimal places.
\<close>

lemma price_value:
  assumes "priceDenominator ord \<noteq> 0"
    and "decimals (buyToken ord) \<le> decimals (sellToken ord) + 22"
    and "decimals (sellToken ord) \<le> decimals (buyToken ord) + 22"
  shows "price ev ord = Fin (round_half_up DECIMAL_PLACES (exactRatio ord))"
  using assms(1) by (simp add: price_dividedBy [OF assms(2,3)] exactRatio_def)

lemma one_third_price:
  "price exampleEnv oneThirdOrder = Fin (33333333333333333333 / 100000000000000000000)"
  by (simp add: oneThirdOrder_def example_defs eval_price)

lemma swapped_price:
  "price exampleEnv (exampleOrder\<lparr>buyToken := WETH, sellToken := USDC\<rparr>) = Fin 0"
  by (simp add: example_defs eval_price)

lemma example_price: "price exampleEnv exampleOrder = Fin 2000"
  by (simp add: example_defs eval_price)

text \<open>
  C3, as the code has it: for every order whose tokens differ by at most 22
  decimals, the price is the library's division of \<open>priceNumerator\<close> by
  \<open>priceDenominator * 10 ^ (b - s)\<close> when the buy token has at least as many
  decimals (\<open>b\<close>) as the sell token (\<open>s\<close>), and of \<open>priceNumerator * 10 ^ (s - b)\<close> by
  \<open>priceDenominator\<close> otherwise. With a denominator other than zero that is the
  exact ratio rounded half up to twenty decimal places: a finite number within
  half a unit of the twentieth place of the ratio, and the ratio itself when the
  ratio has no more than twenty decimal places. With equal decimals the ratio is
  \<open>priceNumerator / priceDenominator\<close>, and with 18 and 6 decimals it is
  \<open>priceNumerator / (priceDenominator * 10 ^ 12)\<close>.
\<close>

theorem price_rounded:
  assumes "decimals (buyToken ord) \<le> decimals (sellToken ord) + 22"
    and "decimals (sellToken ord) \<le> decimals (buyToken ord) + 22"
  shows "price ev ord =
     (if decimals (buyToken ord) \<ge> decimals (sellToken ord)
      then dividedBy (Fin (of_int (priceNumerator ord)))
             (Fin (of_int (priceDenominator ord)
                   * 10 ^ (decimals (buyToken ord) - decimals (sellToken ord))))
      else dividedBy
             (Fin (of_int (priceNumerator ord)
                   * 10 ^ (decimals (sellToken ord) - decimals (buyToken ord))))
             (Fin (of_int (priceDenominator ord))))
   \<and> (priceDenominator ord \<noteq> 0 \<longrightarrow>
        price ev ord = Fin (round_half_up 20 (exactRatio ord))
        \<and> \<bar>round_half_up 20 (exactRatio ord) - exactRatio ord\<bar> \<le> 1 / (2 * 10 ^ 20)
        \<and> (of_int \<lfloor>exactRatio ord * 10 ^ 20\<rfloor> = exactRatio ord * 10 ^ 20 \<longrightarrow>
             price ev ord = Fin (exactRatio ord))
        \<and> (decimals (buyToken ord) = decimals (sellToken ord) \<longrightarrow>
             price ev ord
             = Fin (round_half_up 20
                      (of_int (priceNumerator ord) / of_int (priceDenominator ord))))
        \<and> (decimals (buyToken ord) = 18 \<and> decimals (sellToken ord) = 6 \<longrightarrow>
             price ev ord
             = Fin (round_half_up 20
                      (of_int (priceNumerator ord)
                       / (of_int (priceDenominator ord) * 10 ^ 12)))))"
proof (intro conjI impI)
  show "price ev ord =
     (if decimals (buyToken ord) \<ge> decimals (sellToken ord)
      then dividedBy (Fin (of_int (priceNumerator ord)))
             (Fin (of_int (priceDenominator ord)
                   * 10 ^ (decimals (buyToken ord) - decimals (sellToken ord))))
      else dividedBy
             (Fin (of_int (priceNumerator ord)
                   * 10 ^ (decimals (sellToken ord) - decimals (buyToken ord))))
             (Fin (of_int (priceDenominator ord))))"
    using assms by (rule price_dividedBy)
next
  assume nz: "priceDenominator ord \<noteq> 0"
  have p: "price ev ord = Fin (round_half_up 20 (exactRatio ord))"
    using price_value [OF nz assms, of ev] by (simp only: DECIMAL_PLACES_def)
  show "price ev ord = Fin (round_half_up 20 (exactRatio ord))"
    by (rule p)
  show "\<bar>round_half_up 20 (exactRatio ord) - exactRatio ord\<bar> \<le> 1 / (2 * 10 ^ 20)"
    by (rule round_half_up_error)
  show "price ev ord = Fin (exactRatio ord)"
    if "of_int \<lfloor>exactRatio ord * 10 ^ 20\<rfloor> = exactRatio ord * 10 ^ 20"
    using round_half_up_exact [OF that] by (simp only: p)
  show "price ev ord
        = Fin (round_half_up 20 (of_int (priceNumerator ord) / of_int (priceDenominator ord)))"
    if "decimals (buyToken ord) = decimals (sellToken ord)"
    using that by (simp add: p exactRatio_def)
  show "price ev ord
        = Fin (round_half_up 20
                 (of_int (priceNumerator ord) / (of_int (priceDenominator ord) * 10 ^ 12)))"
    if "decimals (buyToken ord) = 18 \<and> decimals (sellToken ord) = 6"
    using that by (simp add: p exactRatio_def)
qed

theorem price_rounded_witness:
  "decimals (buyToken exampleOrder) \<le> decimals (sellToken exampleOrder) + 22
   \<and> decimals (sellToken exampleOrder) \<le> decimals (buyToken exampleOrder) + 22
   \<and> priceDenominator exampleOrder \<noteq> 0
   \<and> exactRatio exampleOrder = 2000
   \<and> of_int \<lfloor>exactRatio exampleOrder * 10 ^ 20\<rfloor> = exactRatio exampleOrder * 10 ^ 20
   \<and> price exampleEnv exampleOrder = Fin 2000
   \<and> decimals (buyToken oneThirdOrder) = decimals (sellToken oneThirdOrder)
   \<and> priceDenominator oneThirdOrder \<noteq> 0
   \<and> price exampleEnv oneThirdOrder = Fin (round_half_up 20 (1 / 3))
   \<and> decimals (buyToken (exampleOrder\<lparr>buyToken := WETH, sellToken := USDC\<rparr>)) = 18
   \<and> decimals (sellToken (exampleOrder\<lparr>buyToken := WETH, sellToken := USDC\<rparr>)) = 6
   \<and> price exampleEnv (exampleOrder\<lparr>buyToken := WETH, sellToken := USDC\<rparr>)
       = Fin (round_half_up 20 (2000000000 / (1000000000000000000 * 10 ^ 12)))"
proof -
  let ?o2 = "exampleOrder\<lparr>buyToken := WETH, sellToken := USDC\<rparr>"
  have g1: "decimals (buyToken exampleOrder) \<le> decimals (sellToken exampleOrder) + 22"
    "decimals (sellToken exampleOrder) \<le> decimals (buyToken exampleOrder) + 22"
    and g2: "decimals (buyToken oneThirdOrder) \<le> decimals (sellToken oneThirdOrder) + 22"
    "decimals (sellToken oneThirdOrder) \<le> decimals (buyToken oneThirdOrder) + 22"
    and g3: "decimals (buyToken ?o2) \<le> decimals (sellToken ?o2) + 22"
    "decimals (sellToken ?o2) \<le> decimals (buyToken ?o2) + 22"
    by (simp_all add: oneThirdOrder_def example_defs)
  have n1: "priceDenominator exampleOrder \<noteq> 0" and n2: "priceDenominator oneThirdOrder \<noteq> 0"
    and n3: "priceDenominator ?o2 \<noteq> 0"
    by (simp_all add: oneThirdOrder_def example_defs)
  have r: "exactRatio exampleOrder = 2000"
    by (simp add: exactRatio_def example_defs)
  have x: "of_int \<lfloor>exactRatio exampleOrder * 10 ^ 20\<rfloor> = exactRatio exampleOrder * 10 ^ 20"
    by (simp add: r)
  have e: "decimals (buyToken oneThirdOrder) = decimals (sellToken oneThirdOrder)"
    and s: "decimals (buyToken ?o2) = 18 \<and> decimals (sellToken ?o2) = 6"
    by (simp_all add: oneThirdOrder_def example_defs)
  have "price exampleEnv exampleOrder = Fin (exactRatio exampleOrder)"
    using price_rounded [OF g1, of exampleEnv] n1 x by blast
  then have c1: "price exampleEnv exampleOrder = Fin 2000"
    by (simp only: r)
  have "price exampleEnv oneThirdOrder
        = Fin (round_half_up 20 (of_int (priceNumerator oneThirdOrder)
                                 / of_int (priceDenominator oneThirdOrder)))"
    using price_rounded [OF g2, of exampleEnv] n2 e by blast
  then have c2: "price exampleEnv oneThirdOrder = Fin (round_half_up 20 (1 / 3))"
    by (simp add: oneThirdOrder_def exampleOrder_def)
  have "price exampleEnv ?o2
        = Fin (round_half_up 20 (of_int (priceNumerator ?o2)
                                 / (of_int (priceDenominator ?o2) * 10 ^ 12)))"
    using price_rounded [OF g3, of exampleEnv] n3 s by blast
  then have c3: "price exampleEnv ?o2
        = Fin (round_half_up 20 (2000000000 / (1000000000000000000 * 10 ^ 12)))"
    by (simp add: exampleOrder_def)
  show ?thesis
    using g1 n1 r x c1 e n2 c2 s c3 by blast
qed

text \<open>
  C3 as stated fails for an order with equal decimals and a ratio of one third: the
  price is \<open>0.33333333333333333333\<close>, not the ratio. It fails as well for a buy
  token of 18 decimals and a sell token of 6 with the amounts of the example: the
  price is \<open>0\<close>, not \<open>priceNumerator / (priceDenominator * 10 ^ 12)\<close>.
\<close>

theorem price_counterexample:
  "decimals (buyToken oneThirdOrder) = decimals (sellToken oneThirdOrder)
   \<and> priceNumerator oneThirdOrder = 1 \<and> priceDenominator oneThirdOrder = 3
   \<and> price exampleEnv oneThirdOrder = Fin (33333333333333333333 / 100000000000000000000)
   \<and> price exampleEnv oneThirdOrder \<noteq> Fin (1 / 3)
   \<and> decimals (buyToken (exampleOrder\<lparr>buyToken := WETH, sellToken := USDC\<rparr>)) = 18
   \<and> decimals (sellToken (exampleOrder\<lparr>buyToken := WETH, sellToken := USDC\<rparr>)) = 6
   \<and> price exampleEnv (exampleOrder\<lparr>buyToken := WETH, sellToken := USDC\<rparr>) = Fin 0
   \<and> price exampleEnv (exampleOrder\<lparr>buyToken := WETH, sellToken := USDC\<rparr>)
       \<noteq> Fin (2000000000 / (1000000000000000000 * 10 ^ 12))"
  by (simp add: one_third_price swapped_price) (simp add: oneThirdOrder_def example_defs)

subsection \<open>The amount that fills the order\<close>

lemma FACTOR_1000:
  "FEE_DENOMINATOR ev = 1000 \<Longrightarrow> FACTOR_TO_FILL_ORDER ev = Fin (501 / 500)"
  by (simp add: FACTOR_TO_FILL_ORDER_def eval_double)

lemma FACTOR_huge:
  "FEE_DENOMINATOR ev = 1152921504606846976 \<Longrightarrow> FACTOR_TO_FILL_ORDER ev = Fin 1"
  by (simp add: FACTOR_TO_FILL_ORDER_def eval_double)

lemmas eval_fill = fillSellAmount_def FACTOR_1000 FACTOR_huge

text \<open>
  C4, as the code has it: the amount of the link is what bn.js reads from the text
  of \<open>priceNumerator * FACTOR_TO_FILL_ORDER\<close>. For every order with a positive
  \<open>priceNumerator\<close>, a fee denominator from 1 to \<open>2 ^ 52\<close> and a product that is a
  whole number of fewer than 22 digits, bn.js reads the product itself, the link
  carries its full format, its ratio to \<open>priceNumerator\<close> is within \<open>2 ^ -49\<close> of
  \<open>1 + 2 / FEE_DENOMINATOR\<close>, and it is more than \<open>priceNumerator\<close>.
\<close>

theorem fill_amount_factor:
  assumes "0 < priceNumerator ord"
    and "0 < FEE_DENOMINATOR ev" and "FEE_DENOMINATOR ev \<le> 2 ^ 52"
    and "fillSellAmount ev ord = Fin (of_nat k)" and "k < 10 ^ 21"
  shows "BN ev (toString (fillSellAmount ev ord)) = Inr (int k)
       \<and> fillSellAmountFmt ev ord
           = Inr (renderAmount k (decimals (buyToken ord)) (decimals (buyToken ord)))
       \<and> \<bar>of_nat k / of_int (priceNumerator ord)
            - (1 + 2 / of_nat (FEE_DENOMINATOR ev) :: rat)\<bar> \<le> 1 / 2 ^ 49
       \<and> priceNumerator ord < int k"
proof -
  define n :: rat where "n = of_int (priceNumerator ord)"
  obtain f where f: "FACTOR_TO_FILL_ORDER ev = Fin f" and f1: "1 < f"
    and c: "\<bar>f - (1 + 2 / of_nat (FEE_DENOMINATOR ev))\<bar> \<le> 1 / 2 ^ 49"
    using FACTOR_TO_FILL_ORDER_close [OF assms(2,3)] by blast
  have n: "0 < n"
    using assms(1) by (simp add: n_def)
  have "fillSellAmount ev ord = Fin (n * f)"
    by (simp add: fillSellAmount_def f n_def)
  then have k: "of_nat k = n * f"
    using assms(4) by simp
  have r: "of_nat k / n = f"
    using n by (simp add: k)
  have "n < n * f"
    using n f1 by simp
  then have "(of_int (priceNumerator ord) :: rat) < of_int (int k)"
    by (simp add: k n_def)
  then have g: "priceNumerator ord < int k"
    by (simp only: of_int_less_iff)
  have b: "BN ev (toString (fillSellAmount ev ord)) = Inr (int k)"
    using assms(5) by (simp only: assms(4) BN_toString_of_nat)
  have "formatAmountFull (Fin (of_int (int k))) (decimals (buyToken ord))
        = Inr (renderAmount k (decimals (buyToken ord)) (decimals (buyToken ord)))"
    by (simp add: formatAmountFull_def)
  then have l: "fillSellAmountFmt ev ord
        = Inr (renderAmount k (decimals (buyToken ord)) (decimals (buyToken ord)))"
    by (simp only: fillSellAmountFmt_def b sum.case)
  show ?thesis
    using b l c g r [unfolded n_def] by simp
qed

lemma example_fill: "fillSellAmount exampleEnv exampleOrder = Fin 2004000000"
  by (simp add: eval_fill example_defs)

theorem fill_amount_factor_witness:
  "0 < priceNumerator exampleOrder
   \<and> 0 < FEE_DENOMINATOR exampleEnv \<and> FEE_DENOMINATOR exampleEnv \<le> 2 ^ 52
   \<and> fillSellAmount exampleEnv exampleOrder = Fin (of_nat 2004000000)
   \<and> (2004000000 :: nat) < 10 ^ 21
   \<and> BN exampleEnv (toString (fillSellAmount exampleEnv exampleOrder)) = Inr 2004000000
   \<and> fillSellAmountFmt exampleEnv exampleOrder = Inr ''2004.000000''
   \<and> priceNumerator exampleOrder < 2004000000"
proof -
  have h: "0 < priceNumerator exampleOrder" "0 < FEE_DENOMINATOR exampleEnv"
    "FEE_DENOMINATOR exampleEnv \<le> 2 ^ 52"
    "fillSellAmount exampleEnv exampleOrder = Fin (of_nat 2004000000)"
    "(2004000000 :: nat) < 10 ^ 21"
    by (simp_all add: example_fill) (simp_all add: example_defs)
  have r: "renderAmount 2004000000 (decimals (buyToken exampleOrder))
             (decimals (buyToken exampleOrder)) = ''2004.000000''"
    by (simp add: eval_format example_defs)
  have b: "BN exampleEnv (toString (fillSellAmount exampleEnv exampleOrder)) = Inr 2004000000"
    using fill_amount_factor [OF h] by simp
  have l: "fillSellAmountFmt exampleEnv exampleOrder = Inr ''2004.000000''"
    using fill_amount_factor [OF h] by (simp add: r)
  have g: "priceNumerator exampleOrder < 2004000000"
    using fill_amount_factor [OF h] by simp
  show ?thesis
    using h b l g by simp
qed

lemma zero_numerator_fill: "fillSellAmount exampleEnv zeroNumeratorOrder = Fin 0"
  by (simp add: eval_fill zeroNumeratorOrder_def example_defs)

lemma one_numerator_fill: "fillSellAmount exampleEnv oneNumeratorOrder = Fin (501 / 500)"
  by (simp add: eval_fill oneNumeratorOrder_def example_defs)

lemma one_numerator_text: "toString (Fin (501 / 500)) = ''1.002''"
  by (simp add: eval_toString)

lemma large_numerator_fill:
  "fillSellAmount exampleEnv (exampleOrder\<lparr>priceNumerator := 10 ^ 21\<rparr>)
   = Fin 1002000000000000000000"
  by (simp add: eval_fill example_defs)

lemma large_numerator_text: "toString (Fin 1002000000000000000000) = ''1.002e+21''"
  by (simp add: eval_toString)

lemma huge_denominator_fill:
  "fillSellAmount (exampleEnv\<lparr>FEE_DENOMINATOR := 2 ^ 60\<rparr>) exampleOrder = Fin 2000000000"
  by (simp add: eval_fill example_defs)

lemma BN_examples:
  "BN ev ''0'' = Inr 0"
  "BN ev ''2000000000'' = Inr 2000000000"
  "BN ev ''1.002'' = BN_OTHER ev ''1.002''"
  "BN ev ''1.002e+21'' = BN_OTHER ev ''1.002e+21''"
  by (simp_all add: eval_BN)

text \<open>
  C4 as stated fails in four ways. For \<open>priceNumerator = 0\<close>, which is not
  negative, the amount of the link is \<open>0\<close>, not more than \<open>priceNumerator\<close>. For
  \<open>priceNumerator = 1\<close> the product is \<open>1.002\<close>, and for \<open>priceNumerator = 10 ^ 21\<close>
  it prints as \<open>1.002e+21\<close>: bn.js is given a text that is no whole number, and
  with bn.js 5 there is no amount at all. For a fee denominator of \<open>2 ^ 60\<close> the
  factor is 1 in doubles, and the amount of the link is \<open>priceNumerator\<close> itself.
\<close>

theorem fill_amount_counterexample:
  "0 \<le> priceNumerator zeroNumeratorOrder
   \<and> BN exampleEnv (toString (fillSellAmount exampleEnv zeroNumeratorOrder)) = Inr 0
   \<and> \<not> priceNumerator zeroNumeratorOrder < 0
   \<and> 0 \<le> priceNumerator oneNumeratorOrder
   \<and> toString (fillSellAmount exampleEnv oneNumeratorOrder) = ''1.002''
   \<and> fillSellAmountFmt exampleEnv oneNumeratorOrder = Inl InvalidCharacter
   \<and> 0 \<le> priceNumerator (exampleOrder\<lparr>priceNumerator := 10 ^ 21\<rparr>)
   \<and> toString (fillSellAmount exampleEnv (exampleOrder\<lparr>priceNumerator := 10 ^ 21\<rparr>))
       = ''1.002e+21''
   \<and> fillSellAmountFmt exampleEnv (exampleOrder\<lparr>priceNumerator := 10 ^ 21\<rparr>)
       = Inl InvalidCharacter
   \<and> 0 \<le> priceNumerator exampleOrder
   \<and> BN (exampleEnv\<lparr>FEE_DENOMINATOR := 2 ^ 60\<rparr>)
        (toString (fillSellAmount (exampleEnv\<lparr>FEE_DENOMINATOR := 2 ^ 60\<rparr>) exampleOrder))
       = Inr 2000000000
   \<and> \<not> priceNumerator exampleOrder < 2000000000"
proof -
  have t: "toString (Fin 0) = ''0''" "toString (Fin 2000000000) = ''2000000000''"
    by (simp_all add: eval_toString)
  have o: "BN_OTHER exampleEnv s = Inl InvalidCharacter" for s
    by (simp add: exampleEnv_def)
  show ?thesis
    unfolding fillSellAmountFmt_def zero_numerator_fill one_numerator_fill large_numerator_fill
      huge_denominator_fill one_numerator_text large_numerator_text t BN_examples o
    by (simp add: zeroNumeratorOrder_def oneNumeratorOrder_def exampleOrder_def)
qed

subsection \<open>Amounts that are not raw amounts\<close>






text \<open>
  C8: for every raw amount that is a non-negative integer and every decimals count,
  the full format succeeds, its text reads back as a number, and that number times
  \<open>10 ^ decimals\<close> is the raw amount.
\<close>

theorem formatAmountFull_roundtrip:
  assumes "0 \<le> amount"
  shows "\<exists>s q. formatAmountFull (Fin (of_int amount)) d = Inr s
             \<and> parseAmount s = Some q \<and> q * 10 ^ d = of_int amount"
proof -
  have "formatAmountFull (Fin (of_int amount)) d = Inr (renderAmount (nat amount) d d)"
    using assms by (simp add: formatAmountFull_def)
  moreover obtain q where "parseAmount (renderAmount (nat amount) d d) = Some q"
    and "q * 10 ^ d = of_nat (nat amount)"
    using parseAmount_renderAmount by blast
  ultimately show ?thesis
    using assms by auto
qed

theorem formatAmountFull_roundtrip_witness:
  "0 \<le> (1234567 :: int)
   \<and> formatAmountFull (Fin (of_int 1234567)) 3 = Inr ''1234.567''
   \<and> (\<exists>q. parseAmount ''1234.567'' = Some q \<and> q * 10 ^ 3 = of_int 1234567)"
proof -
  have f: "formatAmountFull (Fin (of_int 1234567)) 3 = Inr ''1234.567''"
    by (simp add: eval_format)
  have "0 \<le> (1234567 :: int)"
    by simp
  from formatAmountFull_roundtrip [OF this, of 3] f show ?thesis
    by auto
qed

subsection \<open>The trade window\<close>

lemma splitLines_not_Nil: "splitLines s \<noteq> []"
  by (induction s) (auto split: list.splits)

lemma splitLines_no_newline:
  "newline \<notin> set s \<Longrightarrow> splitLines s = [s]"
  by (induction s) auto

lemma splitLines_append_newline:
  "newline \<notin> set a \<Longrightarrow> splitLines (a @ newline # b) = a # splitLines b"
  by (induction a) auto

lemma oneLine_simps:
  "oneLine []"
  "oneLine (c # cs) = (c \<noteq> newline \<and> oneLine cs)"
  "oneLine (a @ b) = (oneLine a \<and> oneLine b)"
  by (auto simp: oneLine_def)

lemma tradableLine_oneLine:
  assumes "\<And>t. oneLine (calendar ev (now ev) t)" and "\<And>t. oneLine (fromNow ev (now ev) t)"
  shows "oneLine (tradableLine ev ord)"
  using assms by (simp add: tradableLine_def oneLine_simps newline_def)

lemma expiresLine_oneLine:
  assumes "\<And>t. oneLine (calendar ev (now ev) t)" and "\<And>t. oneLine (fromNow ev (now ev) t)"
  shows "oneLine (expiresLine ev ord)"
  using assms by (simp add: expiresLine_def oneLine_simps newline_def)

lemma tradableLine_prefix:
  "prefix ''  - *Tradable*'' (tradableLine ev ord)" "\<not> prefix ''  - *Expires*'' (tradableLine ev ord)"
  by (simp_all add: tradableLine_def)

lemma expiresLine_prefix:
  "prefix ''  - *Expires*'' (expiresLine ev ord)" "\<not> prefix ''  - *Tradable*'' (expiresLine ev ord)"
  by (simp_all add: expiresLine_def)

lemma datesDescription_lines:
  assumes "\<And>t. oneLine (calendar ev (now ev) t)" and "\<And>t. oneLine (fromNow ev (now ev) t)"
  shows "splitLines (datesDescription ev ord)
         = (if validFrom ord > now ev then [tradableLine ev ord] else []) @ [expiresLine ev ord]"
  using tradableLine_oneLine [OF assms, of ord] expiresLine_oneLine [OF assms, of ord]
  by (simp add: datesDescription_def splitLines_append_newline splitLines_no_newline oneLine_def)

text \<open>
  C5: when moment renders each time on one line, the description of the trade
  window has a line that starts with the Tradable marker exactly when
  \<open>validFrom\<close> is after the time of processing, never more than one, and it has
  exactly one line that starts with the Expires marker.
\<close>

theorem trade_window_lines:
  assumes "\<forall>t. oneLine (calendar ev (now ev) t)"
      and "\<forall>t. oneLine (fromNow ev (now ev) t)"
  shows "(linesStarting ''  - *Tradable*'' (datesDescription ev ord) \<noteq> []
            \<longleftrightarrow> validFrom ord > now ev)
       \<and> length (linesStarting ''  - *Tradable*'' (datesDescription ev ord)) \<le> 1
       \<and> length (linesStarting ''  - *Expires*'' (datesDescription ev ord)) = 1"
proof -
  have a: "\<And>t. oneLine (calendar ev (now ev) t)" and b: "\<And>t. oneLine (fromNow ev (now ev) t)"
    using assms by simp_all
  show ?thesis
    by (simp add: linesStarting_def datesDescription_lines [OF a b]
          tradableLine_prefix expiresLine_prefix)
qed

theorem trade_window_lines_witness:
  "(\<forall>t. oneLine (calendar exampleEnv (now exampleEnv) t))
   \<and> (\<forall>t. oneLine (fromNow exampleEnv (now exampleEnv) t))
   \<and> \<not> validFrom exampleOrder > now exampleEnv
   \<and> linesStarting ''  - *Tradable*'' (datesDescription exampleEnv exampleOrder) = []
   \<and> validFrom (exampleOrder\<lparr>validFrom := 7000\<rparr>) > now exampleEnv
   \<and> linesStarting ''  - *Tradable*''
        (datesDescription exampleEnv (exampleOrder\<lparr>validFrom := 7000\<rparr>)) \<noteq> []
   \<and> length (linesStarting ''  - *Expires*'' (datesDescription exampleEnv exampleOrder)) = 1"
proof -
  have a: "\<forall>t. oneLine (calendar exampleEnv (now exampleEnv) t)"
    and b: "\<forall>t. oneLine (fromNow exampleEnv (now exampleEnv) t)"
    by (simp_all add: exampleEnv_def oneLine_def newline_def)
  show ?thesis
    using a b trade_window_lines [OF a b, of exampleOrder]
      trade_window_lines [OF a b, of "exampleOrder\<lparr>validFrom := 7000\<rparr>"]
    by (simp add: exampleEnv_def exampleOrder_def)
qed

subsection \<open>The message\<close>

lemma tokenLabel_displayLabel: "tokenLabel t = displayLabel t"
  by (simp add: tokenLabel_def displayLabel_def firstNonEmpty_def
      split: option.splits list.splits)

lemma composeMessage_Inr:
  assumes "composeMessage ev ord = Inr msg"
  obtains sellFmt buyFmt fillFmt buyFullFmt where
    "sellAmountFmt ev ord = Inr sellFmt"
    "buyAmountFmt ev ord = Inr buyFmt"
    "fillSellAmountFmt ev ord = Inr fillFmt"
    "buyAmountFullFmt ev ord = Inr buyFullFmt"
    "msg = headline sellFmt (tokenLabel (sellToken ord)) buyFmt (tokenLabel (buyToken ord))
           @ [newline, newline]
           @ priceLine (tokenLabel (sellToken ord)) (toString (price ev ord))
               (tokenLabel (buyToken ord))
           @ [newline]
           @ datesDescription ev ord
           @ [newline, newline]
           @ ''Fill the order here: ''
           @ fillLink (WEB_BASE_URL ev) (tokenLabel (buyToken ord))
               (tokenLabel (sellToken ord)) fillFmt buyFullFmt"
  using assms unfolding composeMessage_def Let_def
  by (auto split: sum.splits)

text \<open>
  Amounts that are whole numbers from 0 up, of fewer than 22 digits, pass bn.js
  unchanged and are formatted.
\<close>

lemma amounts_valid:
  assumes "0 \<le> priceDenominator ord" and "priceDenominator ord < 10 ^ 21"
    and "0 \<le> priceNumerator ord" and "priceNumerator ord < 10 ^ 21"
    and "fillSellAmount ev ord = Fin (of_nat k)" and "k < 10 ^ 21"
  shows "sellAmountFmt ev ord
         = formatAmount (DISPLAY_DECIMALS ev) (Fin (of_int (priceDenominator ord)))
             (decimals (sellToken ord))"
    and "buyAmountFmt ev ord
         = formatAmount (DISPLAY_DECIMALS ev) (Fin (of_int (priceNumerator ord)))
             (decimals (buyToken ord))"
    and "fillSellAmountFmt ev ord
         = formatAmountFull (fillSellAmount ev ord) (decimals (buyToken ord))"
    and "buyAmountFullFmt ev ord
         = formatAmountFull (Fin (of_int (priceDenominator ord))) (decimals (sellToken ord))"
    and "\<exists>s. sellAmountFmt ev ord = Inr s" and "\<exists>s. buyAmountFmt ev ord = Inr s"
    and "\<exists>s. fillSellAmountFmt ev ord = Inr s" and "\<exists>s. buyAmountFullFmt ev ord = Inr s"
proof -
  have d: "BN ev (toString (Fin (of_int (priceDenominator ord)))) = Inr (priceDenominator ord)"
    using assms(1,2) by (intro BN_toString) simp_all
  have n: "BN ev (toString (Fin (of_int (priceNumerator ord)))) = Inr (priceNumerator ord)"
    using assms(3,4) by (intro BN_toString) simp_all
  have f: "BN ev (toString (fillSellAmount ev ord)) = Inr (int k)"
    using assms(6) by (simp only: assms(5) BN_toString_of_nat)
  show s: "sellAmountFmt ev ord
         = formatAmount (DISPLAY_DECIMALS ev) (Fin (of_int (priceDenominator ord)))
             (decimals (sellToken ord))"
    by (simp only: sellAmountFmt_def d sum.case)
  show b: "buyAmountFmt ev ord
         = formatAmount (DISPLAY_DECIMALS ev) (Fin (of_int (priceNumerator ord)))
             (decimals (buyToken ord))"
    by (simp only: buyAmountFmt_def n sum.case)
  have "fillSellAmountFmt ev ord = formatAmountFull (Fin (of_int (int k))) (decimals (buyToken ord))"
    by (simp only: fillSellAmountFmt_def f sum.case)
  then show l: "fillSellAmountFmt ev ord
         = formatAmountFull (fillSellAmount ev ord) (decimals (buyToken ord))"
    by (simp add: assms(5))
  show u: "buyAmountFullFmt ev ord
         = formatAmountFull (Fin (of_int (priceDenominator ord))) (decimals (sellToken ord))"
    by (simp only: buyAmountFullFmt_def d sum.case)
  show "\<exists>s. sellAmountFmt ev ord = Inr s"
    unfolding s using assms(1) by (simp add: formatAmount_def)
  show "\<exists>s. buyAmountFmt ev ord = Inr s"
    unfolding b using assms(3) by (simp add: formatAmount_def)
  show "\<exists>s. fillSellAmountFmt ev ord = Inr s"
    unfolding l by (simp add: formatAmountFull_def assms(5))
  show "\<exists>s. buyAmountFullFmt ev ord = Inr s"
    unfolding u using assms(1) by (simp add: formatAmountFull_def)
qed

lemma composeMessage_valid:
  assumes "0 \<le> priceDenominator ord" and "priceDenominator ord < 10 ^ 21"
    and "0 \<le> priceNumerator ord" and "priceNumerator ord < 10 ^ 21"
    and "fillSellAmount ev ord = Fin (of_nat k)" and "k < 10 ^ 21"
  shows "\<exists>msg. composeMessage ev ord = Inr msg"
proof -
  obtain a b c d where "sellAmountFmt ev ord = Inr a" "buyAmountFmt ev ord = Inr b"
    "fillSellAmountFmt ev ord = Inr c" "buyAmountFullFmt ev ord = Inr d"
    using amounts_valid(5-8) [OF assms] by blast
  then show ?thesis
    by (simp add: composeMessage_def Let_def)
qed

lemma example_amounts:
  "sellAmountFmt exampleEnv exampleOrder = Inr ''1.0000''"
  "buyAmountFmt exampleEnv exampleOrder = Inr ''2000.0000''"
  "fillSellAmountFmt exampleEnv exampleOrder = Inr ''2004.000000''"
  "buyAmountFullFmt exampleEnv exampleOrder = Inr ''1.000000000000000000''"
  by (simp_all add: sellAmountFmt_def buyAmountFmt_def fillSellAmountFmt_def
        buyAmountFullFmt_def eval_fill eval_toString eval_BN eval_format example_defs)

lemma example_price_text: "toString (price exampleEnv exampleOrder) = ''2000''"
  unfolding example_price by (simp add: eval_toString)

lemma example_message_text: "composeMessage exampleEnv exampleOrder = Inr exampleMessage"
  unfolding composeMessage_def example_amounts example_price_text
  by (simp add: Let_def tokenLabel_def datesDescription_def tradableLine_def expiresLine_def
        headline_def priceLine_def fillLink_def example_defs exampleMessage_def)

text \<open>
  C6: for every order whose two amounts and amount to fill are whole numbers from 0
  up, of fewer than 22 digits, a message is composed, and its amounts are the
  formats of \<open>priceDenominator\<close>, of \<open>priceNumerator\<close> and of the amount that fills
  the order. Every message that is composed starts with the headline
  \<open>Sell *X* `SELL` for *Y* `BUY`\<close>, contains the price \<open>1 `SELL` = price `BUY`\<close>
  and the description of the trade window, each up to the end of its line, and ends
  with the link \<open>base/trade/BUY-SELL?sell=F&buy=B\<close>. Here \<open>X\<close> and \<open>Y\<close> are the
  display formats of \<open>priceDenominator\<close> and \<open>priceNumerator\<close>, \<open>F\<close> is the full
  format of the amount that fills the order, \<open>B\<close> the full format of
  \<open>priceDenominator\<close>, and \<open>SELL\<close> and \<open>BUY\<close> are the first non-empty of symbol,
  name and address of the two tokens.
\<close>

theorem announcement_template:
  "(0 \<le> priceDenominator ord \<and> priceDenominator ord < 10 ^ 21
    \<and> 0 \<le> priceNumerator ord \<and> priceNumerator ord < 10 ^ 21
    \<and> fillSellAmount ev ord = Fin (of_nat k) \<and> k < 10 ^ 21 \<longrightarrow>
      (\<exists>msg. composeMessage ev ord = Inr msg)
      \<and> sellAmountFmt ev ord
          = formatAmount (DISPLAY_DECIMALS ev) (Fin (of_int (priceDenominator ord)))
              (decimals (sellToken ord))
      \<and> buyAmountFmt ev ord
          = formatAmount (DISPLAY_DECIMALS ev) (Fin (of_int (priceNumerator ord)))
              (decimals (buyToken ord))
      \<and> fillSellAmountFmt ev ord
          = formatAmountFull (fillSellAmount ev ord) (decimals (buyToken ord))
      \<and> buyAmountFullFmt ev ord
          = formatAmountFull (Fin (of_int (priceDenominator ord))) (decimals (sellToken ord)))
   \<and> (composeMessage ev ord = Inr msg \<longrightarrow>
      (\<exists>sellFmt buyFmt fillFmt buyFullFmt.
          sellAmountFmt ev ord = Inr sellFmt
        \<and> buyAmountFmt ev ord = Inr buyFmt
        \<and> fillSellAmountFmt ev ord = Inr fillFmt
        \<and> buyAmountFullFmt ev ord = Inr buyFullFmt
        \<and> prefix (''Sell *'' @ sellFmt @ ''* `'' @ displayLabel (sellToken ord) @ ''` for *''
                   @ buyFmt @ ''* `'' @ displayLabel (buyToken ord) @ ''`'' @ [newline]) msg
        \<and> sublist (''1 `'' @ displayLabel (sellToken ord) @ ''` = ''
                    @ toString (price ev ord)
                    @ '' `'' @ displayLabel (buyToken ord) @ ''`'' @ [newline]) msg
        \<and> sublist ([newline] @ datesDescription ev ord @ [newline]) msg
        \<and> suffix (WEB_BASE_URL ev @ ''/trade/'' @ displayLabel (buyToken ord) @ ''-''
                   @ displayLabel (sellToken ord) @ ''?sell='' @ fillFmt
                   @ ''&buy='' @ buyFullFmt) msg))"
proof (intro conjI impI)
  assume "0 \<le> priceDenominator ord \<and> priceDenominator ord < 10 ^ 21
    \<and> 0 \<le> priceNumerator ord \<and> priceNumerator ord < 10 ^ 21
    \<and> fillSellAmount ev ord = Fin (of_nat k) \<and> k < 10 ^ 21"
  then have h: "0 \<le> priceDenominator ord" "priceDenominator ord < 10 ^ 21"
    "0 \<le> priceNumerator ord" "priceNumerator ord < 10 ^ 21"
    "fillSellAmount ev ord = Fin (of_nat k)" "k < 10 ^ 21"
    by blast+
  show "\<exists>msg. composeMessage ev ord = Inr msg"
    using h by (rule composeMessage_valid)
  show "sellAmountFmt ev ord
          = formatAmount (DISPLAY_DECIMALS ev) (Fin (of_int (priceDenominator ord)))
              (decimals (sellToken ord))"
    using h by (rule amounts_valid)
  show "buyAmountFmt ev ord
          = formatAmount (DISPLAY_DECIMALS ev) (Fin (of_int (priceNumerator ord)))
              (decimals (buyToken ord))"
    using h by (rule amounts_valid)
  show "fillSellAmountFmt ev ord
          = formatAmountFull (fillSellAmount ev ord) (decimals (buyToken ord))"
    using h by (rule amounts_valid)
  show "buyAmountFullFmt ev ord
          = formatAmountFull (Fin (of_int (priceDenominator ord))) (decimals (sellToken ord))"
    using h by (rule amounts_valid)
next
  assume "composeMessage ev ord = Inr msg"
  then obtain sellFmt buyFmt fillFmt buyFullFmt where
    f: "sellAmountFmt ev ord = Inr sellFmt"
    "buyAmountFmt ev ord = Inr buyFmt"
    "fillSellAmountFmt ev ord = Inr fillFmt"
    "buyAmountFullFmt ev ord = Inr buyFullFmt"
    and msg: "msg = headline sellFmt (tokenLabel (sellToken ord)) buyFmt (tokenLabel (buyToken ord))
           @ [newline, newline]
           @ priceLine (tokenLabel (sellToken ord)) (toString (price ev ord))
               (tokenLabel (buyToken ord))
           @ [newline]
           @ datesDescription ev ord
           @ [newline, newline]
           @ ''Fill the order here: ''
           @ fillLink (WEB_BASE_URL ev) (tokenLabel (buyToken ord))
               (tokenLabel (sellToken ord)) fillFmt buyFullFmt"
    by (rule composeMessage_Inr)
  let ?S = "displayLabel (sellToken ord)" and ?B = "displayLabel (buyToken ord)"
  let ?H = "''Sell *'' @ sellFmt @ ''* `'' @ ?S @ ''` for *'' @ buyFmt @ ''* `'' @ ?B @ ''`''"
  let ?P = "''1 `'' @ ?S @ ''` = '' @ toString (price ev ord) @ '' `'' @ ?B @ ''`''"
  let ?D = "datesDescription ev ord"
  let ?L = "WEB_BASE_URL ev @ ''/trade/'' @ ?B @ ''-'' @ ?S @ ''?sell='' @ fillFmt
            @ ''&buy='' @ buyFullFmt"
  have m1: "msg = (?H @ [newline]) @ ([newline] @ ''  - *Price*:  '' @ ?P @ [newline] @ ?D
                 @ [newline, newline] @ ''Fill the order here: '' @ ?L)"
    by (simp add: msg headline_def priceLine_def fillLink_def tokenLabel_displayLabel)
  have m2: "msg = (?H @ [newline, newline] @ ''  - *Price*:  '') @ (?P @ [newline])
                 @ (?D @ [newline, newline] @ ''Fill the order here: '' @ ?L)"
    by (simp add: m1)
  have m3: "msg = (?H @ [newline, newline] @ ''  - *Price*:  '' @ ?P) @ ([newline] @ ?D @ [newline])
                 @ ([newline] @ ''Fill the order here: '' @ ?L)"
    by (simp add: m1)
  have m4: "msg = (?H @ [newline, newline] @ ''  - *Price*:  '' @ ?P @ [newline] @ ?D
                 @ [newline, newline] @ ''Fill the order here: '') @ ?L"
    by (simp add: m1)
  have "prefix (?H @ [newline]) msg"
    by (subst m1) (rule prefixI, rule refl)
  moreover have "sublist (?P @ [newline]) msg"
    by (subst m2) (rule sublist_appendI)
  moreover have "sublist ([newline] @ ?D @ [newline]) msg"
    by (subst m3) (rule sublist_appendI)
  moreover have "suffix ?L msg"
    by (subst m4) (rule suffixI, rule refl)
  ultimately show "\<exists>sellFmt buyFmt fillFmt buyFullFmt.
          sellAmountFmt ev ord = Inr sellFmt
        \<and> buyAmountFmt ev ord = Inr buyFmt
        \<and> fillSellAmountFmt ev ord = Inr fillFmt
        \<and> buyAmountFullFmt ev ord = Inr buyFullFmt
        \<and> prefix (''Sell *'' @ sellFmt @ ''* `'' @ displayLabel (sellToken ord) @ ''` for *''
                   @ buyFmt @ ''* `'' @ displayLabel (buyToken ord) @ ''`'' @ [newline]) msg
        \<and> sublist (''1 `'' @ displayLabel (sellToken ord) @ ''` = ''
                    @ toString (price ev ord)
                    @ '' `'' @ displayLabel (buyToken ord) @ ''`'' @ [newline]) msg
        \<and> sublist ([newline] @ datesDescription ev ord @ [newline]) msg
        \<and> suffix (WEB_BASE_URL ev @ ''/trade/'' @ displayLabel (buyToken ord) @ ''-''
                   @ displayLabel (sellToken ord) @ ''?sell='' @ fillFmt
                   @ ''&buy='' @ buyFullFmt) msg"
    using f by (auto simp only: append_assoc)
qed

text \<open>The order of the example is in range, and its message has the parts that C6 names.\<close>

theorem announcement_template_witness:
  "0 \<le> priceDenominator exampleOrder \<and> priceDenominator exampleOrder < 10 ^ 21
   \<and> 0 \<le> priceNumerator exampleOrder \<and> priceNumerator exampleOrder < 10 ^ 21
   \<and> fillSellAmount exampleEnv exampleOrder = Fin (of_nat 2004000000)
   \<and> (2004000000 :: nat) < 10 ^ 21
   \<and> composeMessage exampleEnv exampleOrder = Inr exampleMessage
   \<and> prefix (''Sell *1.0000* `WETH` for *2000.0000* `USDC`'' @ [newline]) exampleMessage
   \<and> sublist (''1 `WETH` = 2000 `USDC`'' @ [newline]) exampleMessage
   \<and> sublist ([newline] @ datesDescription exampleEnv exampleOrder @ [newline]) exampleMessage
   \<and> suffix (''https://dex.example/trade/USDC-WETH''
              @ ''?sell=2004.000000&buy=1.000000000000000000'') exampleMessage"
proof -
  have h: "0 \<le> priceDenominator exampleOrder \<and> priceDenominator exampleOrder < 10 ^ 21
   \<and> 0 \<le> priceNumerator exampleOrder \<and> priceNumerator exampleOrder < 10 ^ 21
   \<and> fillSellAmount exampleEnv exampleOrder = Fin (of_nat 2004000000)
   \<and> (2004000000 :: nat) < 10 ^ 21"
    by (simp add: example_fill) (simp add: exampleOrder_def)
  have l: "displayLabel (sellToken exampleOrder) = ''WETH''"
    "displayLabel (buyToken exampleOrder) = ''USDC''"
    "WEB_BASE_URL exampleEnv = ''https://dex.example''"
    by (simp_all add: displayLabel_def firstNonEmpty_def example_defs)
  obtain msg where m: "composeMessage exampleEnv exampleOrder = Inr msg"
    using announcement_template [of exampleOrder exampleEnv 2004000000] h by blast
  then have e: "msg = exampleMessage"
    by (simp add: example_message_text)
  have "prefix (''Sell *1.0000* `WETH` for *2000.0000* `USDC`'' @ [newline]) msg
   \<and> sublist (''1 `WETH` = 2000 `USDC`'' @ [newline]) msg
   \<and> sublist ([newline] @ datesDescription exampleEnv exampleOrder @ [newline]) msg
   \<and> suffix (''https://dex.example/trade/USDC-WETH''
              @ ''?sell=2004.000000&buy=1.000000000000000000'') msg"
    using announcement_template [of exampleOrder exampleEnv 2004000000 msg] m
    by (simp add: example_amounts l example_price_text)
  then show ?thesis
    using h m unfolding e by blast
qed

subsection \<open>The lines of the message\<close>

lemma splitLines_append_newline_gen:
  "splitLines (a @ newline # b) = splitLines a @ splitLines b"
proof (induction a)
  case Nil
  show ?case by simp
next
  case (Cons c a)
  obtain l ls where "splitLines a = l # ls"
    using splitLines_not_Nil [of a] by (cases "splitLines a") auto
  with Cons show ?case
    by simp
qed

lemma oneLine_digits: "oneLine (digits n)"
  using digits_range [of n] by (auto simp: oneLine_def newline_def)

lemma oneLine_renderAmount: "oneLine (renderAmount n d k)"
  using oneLine_digits
  by (auto simp: renderAmount_def padLeft_def oneLine_simps oneLine_def newline_def)

lemma oneLine_formatAmount: "formatAmount shown x d = Inr s \<Longrightarrow> oneLine s"
  using oneLine_renderAmount by (auto simp: formatAmount_def split: sum.splits)

lemma oneLine_formatAmountFull: "formatAmountFull x d = Inr s \<Longrightarrow> oneLine s"
  using oneLine_renderAmount by (auto simp: formatAmountFull_def split: sum.splits)

lemma oneLine_amounts:
  "sellAmountFmt ev ord = Inr s \<Longrightarrow> oneLine s"
  "buyAmountFmt ev ord = Inr s \<Longrightarrow> oneLine s"
  "fillSellAmountFmt ev ord = Inr s \<Longrightarrow> oneLine s"
  "buyAmountFullFmt ev ord = Inr s \<Longrightarrow> oneLine s"
  using oneLine_formatAmount oneLine_formatAmountFull
  by (auto simp: sellAmountFmt_def buyAmountFmt_def fillSellAmountFmt_def buyAmountFullFmt_def
        split: sum.splits)

lemma message_lines:
  assumes msg: "composeMessage ev ord = Inr msg"
    and url: "oneLine (WEB_BASE_URL ev)"
    and sl: "oneLine (tokenLabel (sellToken ord))"
    and bl: "oneLine (tokenLabel (buyToken ord))"
    and pr: "oneLine (toString (price ev ord))"
  shows "linesStarting ''  - *Tradable*'' msg
         = linesStarting ''  - *Tradable*'' (datesDescription ev ord)"
proof -
  from msg obtain sellFmt buyFmt fillFmt buyFullFmt where
    f: "sellAmountFmt ev ord = Inr sellFmt"
    "buyAmountFmt ev ord = Inr buyFmt"
    "fillSellAmountFmt ev ord = Inr fillFmt"
    "buyAmountFullFmt ev ord = Inr buyFullFmt"
    and m: "msg = headline sellFmt (tokenLabel (sellToken ord)) buyFmt (tokenLabel (buyToken ord))
           @ [newline, newline]
           @ priceLine (tokenLabel (sellToken ord)) (toString (price ev ord))
               (tokenLabel (buyToken ord))
           @ [newline]
           @ datesDescription ev ord
           @ [newline, newline]
           @ ''Fill the order here: ''
           @ fillLink (WEB_BASE_URL ev) (tokenLabel (buyToken ord))
               (tokenLabel (sellToken ord)) fillFmt buyFullFmt"
    by (rule composeMessage_Inr)
  define H where
    "H = headline sellFmt (tokenLabel (sellToken ord)) buyFmt (tokenLabel (buyToken ord))"
  define P where
    "P = priceLine (tokenLabel (sellToken ord)) (toString (price ev ord))
               (tokenLabel (buyToken ord))"
  define F where
    "F = ''Fill the order here: ''
           @ fillLink (WEB_BASE_URL ev) (tokenLabel (buyToken ord))
               (tokenLabel (sellToken ord)) fillFmt buyFullFmt"
  have o: "oneLine sellFmt" "oneLine buyFmt" "oneLine fillFmt" "oneLine buyFullFmt"
    using f oneLine_amounts by blast+
  have oH: "newline \<notin> set H" and oP: "newline \<notin> set P" and oF: "newline \<notin> set F"
    using o url sl bl pr
    by (simp_all add: H_def P_def F_def headline_def priceLine_def fillLink_def
          oneLine_def newline_def)
  have pH: "\<not> prefix ''  - *Tradable*'' H"
    and pP: "\<not> prefix ''  - *Tradable*'' P"
    and pF: "\<not> prefix ''  - *Tradable*'' F"
    by (simp_all add: H_def P_def F_def headline_def priceLine_def)
  have "msg = H @ newline # newline # P @ newline # datesDescription ev ord
               @ newline # newline # F"
    by (simp add: m H_def P_def F_def)
  then have "splitLines msg
             = [H, [], P] @ splitLines (datesDescription ev ord) @ [[], F]"
    using oH oP oF
    by (simp add: splitLines_append_newline_gen splitLines_no_newline)
  then show ?thesis
    using pH pP pF by (simp add: linesStarting_def)
qed

lemma message_price_line:
  assumes "composeMessage ev ord = Inr msg"
  shows "prefix ''Sell'' msg"
    and "sublist (''1 `'' @ tokenLabel (sellToken ord) @ ''` = '' @ toString (price ev ord)
                @ '' `'' @ tokenLabel (buyToken ord) @ ''`'') msg"
proof -
  from assms obtain sellFmt buyFmt fillFmt buyFullFmt where
    m: "msg = headline sellFmt (tokenLabel (sellToken ord)) buyFmt (tokenLabel (buyToken ord))
           @ [newline, newline]
           @ priceLine (tokenLabel (sellToken ord)) (toString (price ev ord))
               (tokenLabel (buyToken ord))
           @ [newline]
           @ datesDescription ev ord
           @ [newline, newline]
           @ ''Fill the order here: ''
           @ fillLink (WEB_BASE_URL ev) (tokenLabel (buyToken ord))
               (tokenLabel (sellToken ord)) fillFmt buyFullFmt"
    by (rule composeMessage_Inr)
  show "prefix ''Sell'' msg"
    by (simp add: m headline_def)
  let ?P = "''1 `'' @ tokenLabel (sellToken ord) @ ''` = '' @ toString (price ev ord)
                @ '' `'' @ tokenLabel (buyToken ord) @ ''`''"
  have "msg = (headline sellFmt (tokenLabel (sellToken ord)) buyFmt (tokenLabel (buyToken ord))
           @ [newline, newline] @ ''  - *Price*:  '') @ ?P @ ([newline]
           @ datesDescription ev ord
           @ [newline, newline]
           @ ''Fill the order here: ''
           @ fillLink (WEB_BASE_URL ev) (tokenLabel (buyToken ord))
               (tokenLabel (sellToken ord)) fillFmt buyFullFmt)"
    by (simp add: m priceLine_def)
  then show "sublist ?P msg"
    by (metis sublist_appendI)
qed

subsection \<open>The example of the specification\<close>

text \<open>
  C2, as the code has it: for the order of the example (a sell token WETH with 18
  decimals, a buy token USDC with 6, \<open>priceNumerator = 2000000000\<close>,
  \<open>priceDenominator = 10 ^ 18\<close>, \<open>validFrom\<close> in the past and \<open>validUntil\<close> ahead)
  the price is \<open>(priceNumerator * 10 ^ 12) / priceDenominator = 2000\<close>; the message
  is composed, contains \<open>Sell\<close> and \<open>1 `WETH` = 2000 `USDC`\<close>, and has no
  Tradable line. The amount that fills the order is a whole number of fewer than
  22 digits, and the surroundings write each of their texts on one line.
\<close>

theorem example_message:
  assumes "decimals (sellToken ord) = 18" and "symbol (sellToken ord) = Some ''WETH''"
    and "decimals (buyToken ord) = 6" and "symbol (buyToken ord) = Some ''USDC''"
    and "priceNumerator ord = 2000000000"
    and "priceDenominator ord = 1000000000000000000"
    and "validFrom ord < now ev" and "now ev < validUntil ord"
    and "fillSellAmount ev ord = Fin (of_nat k)" and "k < 10 ^ 21"
    and "oneLine (WEB_BASE_URL ev)"
    and "\<forall>t. oneLine (calendar ev (now ev) t)" and "\<forall>t. oneLine (fromNow ev (now ev) t)"
  shows "price ev ord = dividedBy (Fin (2000000000 * 10 ^ 12)) (Fin 1000000000000000000)
       \<and> price ev ord = Fin 2000
       \<and> (\<exists>msg. composeMessage ev ord = Inr msg
              \<and> sublist ''Sell'' msg
              \<and> sublist ''1 `WETH` = 2000 `USDC`'' msg
              \<and> linesStarting ''  - *Tradable*'' msg = [])"
proof -
  have p1: "price ev ord = dividedBy (Fin (2000000000 * 10 ^ 12)) (Fin 1000000000000000000)"
    using assms(1,3,5,6) by (simp add: price_def precisionFactor_def)
  have p2: "price ev ord = Fin 2000"
    unfolding p1 by (simp add: DECIMAL_PLACES_def round_half_up_def floor_numeral_div)
  have ts: "toString (price ev ord) = ''2000''"
    unfolding p2 by (simp add: eval_toString)
  have ls: "tokenLabel (sellToken ord) = ''WETH''" and lb: "tokenLabel (buyToken ord) = ''USDC''"
    using assms(2,4) by (simp_all add: tokenLabel_def)
  obtain msg where msg: "composeMessage ev ord = Inr msg"
    using composeMessage_valid [of ord ev k] assms(5,6,9,10) by auto
  have "prefix ''Sell'' msg"
    using msg by (rule message_price_line)
  then have a: "sublist ''Sell'' msg"
    by (rule prefix_imp_sublist)
  have b: "sublist ''1 `WETH` = 2000 `USDC`'' msg"
    using message_price_line(2) [OF msg] by (simp add: ts ls lb)
  have "linesStarting ''  - *Tradable*'' msg
         = linesStarting ''  - *Tradable*'' (datesDescription ev ord)"
    using msg assms(11) by (rule message_lines) (simp_all add: ts ls lb oneLine_def newline_def)
  also have "\<dots> = []"
    using assms(7,12,13)
    by (simp add: linesStarting_def datesDescription_lines expiresLine_prefix)
  finally have c: "linesStarting ''  - *Tradable*'' msg = []" .
  show ?thesis
    using p1 p2 msg a b c by blast
qed

theorem example_message_witness:
  "decimals (sellToken exampleOrder) = 18 \<and> symbol (sellToken exampleOrder) = Some ''WETH''
   \<and> decimals (buyToken exampleOrder) = 6 \<and> symbol (buyToken exampleOrder) = Some ''USDC''
   \<and> priceNumerator exampleOrder = 2000000000
   \<and> priceDenominator exampleOrder = 1000000000000000000
   \<and> validFrom exampleOrder < now exampleEnv \<and> now exampleEnv < validUntil exampleOrder
   \<and> fillSellAmount exampleEnv exampleOrder = Fin (of_nat 2004000000)
   \<and> (2004000000 :: nat) < 10 ^ 21
   \<and> oneLine (WEB_BASE_URL exampleEnv)
   \<and> (\<forall>t. oneLine (calendar exampleEnv (now exampleEnv) t))
   \<and> (\<forall>t. oneLine (fromNow exampleEnv (now exampleEnv) t))
   \<and> price exampleEnv exampleOrder = Fin 2000
   \<and> sublist ''Sell'' exampleMessage
   \<and> sublist ''1 `WETH` = 2000 `USDC`'' exampleMessage
   \<and> linesStarting ''  - *Tradable*'' exampleMessage = []"
proof -
  have h: "decimals (sellToken exampleOrder) = 18" "symbol (sellToken exampleOrder) = Some ''WETH''"
    "decimals (buyToken exampleOrder) = 6" "symbol (buyToken exampleOrder) = Some ''USDC''"
    "priceNumerator exampleOrder = 2000000000"
    "priceDenominator exampleOrder = 1000000000000000000"
    "validFrom exampleOrder < now exampleEnv" "now exampleEnv < validUntil exampleOrder"
    "fillSellAmount exampleEnv exampleOrder = Fin (of_nat 2004000000)"
    "(2004000000 :: nat) < 10 ^ 21"
    "oneLine (WEB_BASE_URL exampleEnv)"
    "\<forall>t. oneLine (calendar exampleEnv (now exampleEnv) t)"
    "\<forall>t. oneLine (fromNow exampleEnv (now exampleEnv) t)"
    by (simp_all add: example_fill) (simp_all add: example_defs oneLine_def newline_def)
  from example_message [OF h] obtain msg where
    p: "price exampleEnv exampleOrder = Fin 2000"
    and m: "composeMessage exampleEnv exampleOrder = Inr msg"
    and r: "sublist ''Sell'' msg" "sublist ''1 `WETH` = 2000 `USDC`'' msg"
       "linesStarting ''  - *Tradable*'' msg = []"
    by blast
  have "msg = exampleMessage"
    using m by (simp add: example_message_text)
  with h p r show ?thesis
    by blast
qed

text \<open>
  C2 as stated fails on the example: the price is \<open>2000\<close>, neither \<open>2\<close> nor the
  value of \<open>priceNumerator / (priceDenominator * 10 ^ 12)\<close> (which the library
  rounds to \<open>0\<close>), and the message does not contain \<open>1 `WETH` = 2 `USDC`\<close>.
\<close>

theorem example_message_counterexample:
  "price exampleEnv exampleOrder = Fin 2000
   \<and> price exampleEnv exampleOrder \<noteq> Fin 2
   \<and> price exampleEnv exampleOrder
       \<noteq> dividedBy (Fin 2000000000) (Fin (1000000000000000000 * 10 ^ 12))
   \<and> composeMessage exampleEnv exampleOrder = Inr exampleMessage
   \<and> \<not> sublist ''1 `WETH` = 2 `USDC`'' exampleMessage"
proof -
  have "dividedBy (Fin 2000000000) (Fin (1000000000000000000 * 10 ^ 12)) = Fin 0"
    by (simp add: DECIMAL_PLACES_def round_half_up_def floor_numeral_div)
  moreover have "\<not> sublist ''1 `WETH` = 2 `USDC`'' exampleMessage"
    by (simp add: exampleMessage_def newline_def sublist_Cons_right)
  ultimately show ?thesis
    by (simp add: example_price example_message_text)
qed

subsection \<open>A denominator of zero\<close>










end
